theory Spec2Isabelle
  imports Complex_Main "HOL-Library.Multiset"
begin

section \<open>Python values used by otimizador.py\<close>

text \<open>
  A Python float is an IEEE 754 double: a finite value, which the model holds as the real
  number it stands for, or one of the three non-finite values. The sign of zero is not
  kept; nothing in the module depends on it.
\<close>

datatype pyfloat = Fin real | PInf | NInf | NaN

text \<open>
  The exceptions the module can raise. Python's \<open>ValueError\<close> is raised at two places
  that the model keeps apart: the size guard of \<open>otimizar_rota\<close> and \<open>int(nan)\<close>.
\<close>

datatype value_error = TooFewPoints | NaNToInt

datatype error =
    ValueError value_error
  | OverflowError
  | ZeroDivisionError
  | RuntimeError
  | IndexError

subsection \<open>Rounding to a double\<close>

text \<open>
  The finite doubles are the numbers \<open>m * 2^e\<close> with \<open>|m| < 2^53\<close> and
  \<open>-1074 \<le> e \<le> 971\<close>. An arithmetic operation on finite doubles gives the exact
  result rounded to the nearest double, ties to the even significand, and an infinity
  when the rounded magnitude reaches \<open>2^1024\<close>. \<open>double_exponent x\<close> is the exponent
  \<open>e\<close> of the doubles around \<open>x\<close>: 52 below the binary exponent of \<open>x\<close>, and never
  below that of the subnormal numbers.
\<close>

definition round_half_even :: "real \<Rightarrow> int" where
  "round_half_even q =
     (let f = \<lfloor>q\<rfloor>; r = q - of_int f
      in if r < 1 / 2 then f else if 1 / 2 < r then f + 1 else if even f then f else f + 1)"

definition double_exponent :: "real \<Rightarrow> int" where
  "double_exponent x = max (\<lfloor>log 2 \<bar>x\<bar>\<rfloor> - 52) (- 1074)"

definition round_double :: "real \<Rightarrow> pyfloat" where
  "round_double x =
     (if x = 0 then Fin 0
      else let e = double_exponent x;
               y = of_int (round_half_even (x / 2 powr of_int e)) * 2 powr of_int e
           in if 2 ^ 1024 \<le> \<bar>y\<bar> then (if 0 < x then PInf else NInf) else Fin y)"

subsection \<open>Operations on floats\<close>

text \<open>\<open>a - b\<close> on floats.\<close>

fun fsub :: "pyfloat \<Rightarrow> pyfloat \<Rightarrow> pyfloat" where
  "fsub (Fin x) (Fin y) = round_double (x - y)"
| "fsub NaN _ = NaN"
| "fsub _ NaN = NaN"
| "fsub PInf PInf = NaN"
| "fsub NInf NInf = NaN"
| "fsub PInf _ = PInf"
| "fsub NInf _ = NInf"
| "fsub (Fin x) PInf = NInf"
| "fsub (Fin x) NInf = PInf"

text \<open>
  \<open>math.hypot(x, y)\<close>. The function takes the absolute values of its arguments; an
  infinite argument gives \<open>inf\<close> even beside a NaN, otherwise a NaN argument gives NaN;
  when the larger magnitude is zero the result is zero. What it computes from two finite
  magnitudes that are not both zero is the work of the C library and of the interpreter's
  version: it is the parameter \<open>norm2\<close> of the model.
\<close>

type_synonym hypot_kernel = "real \<Rightarrow> real \<Rightarrow> pyfloat"

definition isinf :: "pyfloat \<Rightarrow> bool" where
  "isinf a \<longleftrightarrow> a = PInf \<or> a = NInf"

definition hypot :: "hypot_kernel \<Rightarrow> pyfloat \<Rightarrow> pyfloat \<Rightarrow> pyfloat" where
  "hypot norm2 a b =
     (case (a, b) of
        (Fin x, Fin y) \<Rightarrow> if max \<bar>x\<bar> \<bar>y\<bar> = 0 then Fin 0 else norm2 \<bar>x\<bar> \<bar>y\<bar>
      | _ \<Rightarrow> if isinf a \<or> isinf b then PInf else NaN)"

text \<open>\<open>a * b\<close> on floats.\<close>

definition fsign :: "pyfloat \<Rightarrow> int" where
  "fsign a = (case a of Fin x \<Rightarrow> (if x < 0 then - 1 else if x = 0 then 0 else 1)
                | PInf \<Rightarrow> 1 | NInf \<Rightarrow> - 1 | NaN \<Rightarrow> 0)"

definition fmul :: "pyfloat \<Rightarrow> pyfloat \<Rightarrow> pyfloat" where
  "fmul a b =
     (case (a, b) of
        (Fin x, Fin y) \<Rightarrow> round_double (x * y)
      | _ \<Rightarrow> if a = NaN \<or> b = NaN \<or> fsign a * fsign b = 0 then NaN
             else if fsign a * fsign b < 0 then NInf else PInf)"

text \<open>
  \<open>a / d\<close> for a float \<open>a\<close> and a positive literal \<open>d\<close> (the module divides by 1000,
  3600 and 60 only).
\<close>

definition fdiv_literal :: "pyfloat \<Rightarrow> real \<Rightarrow> pyfloat" where
  "fdiv_literal a d = (case a of Fin x \<Rightarrow> round_double (x / d) | _ \<Rightarrow> a)"

text \<open>
  \<open>a / b\<close> on integers: the quotient rounded to the nearest double, OverflowError when
  it is too large for a double.
\<close>

definition py_truediv :: "int \<Rightarrow> int \<Rightarrow> error + real" where
  "py_truediv a b =
     (if b = 0 then Inl ZeroDivisionError
      else case round_double (real_of_int a / real_of_int b) of
             Fin q \<Rightarrow> Inr q
           | _ \<Rightarrow> Inl OverflowError)"

text \<open>
  \<open>int(x)\<close> on a float truncates toward zero; on NaN it raises ValueError and on an
  infinity OverflowError.
\<close>

fun py_int :: "pyfloat \<Rightarrow> error + int" where
  "py_int (Fin x) = Inr (if 0 \<le> x then \<lfloor>x\<rfloor> else \<lceil>x\<rceil>)"
| "py_int NaN = Inl (ValueError NaNToInt)"
| "py_int PInf = Inl OverflowError"
| "py_int NInf = Inl OverflowError"

section \<open>distancia_euclidiana\<close>

text \<open>A point is the two-element list \<open>[longitude, latitude]\<close>; \<open>a[0]\<close> is \<open>fst a\<close>.\<close>

type_synonym point = "pyfloat \<times> pyfloat"

definition distancia_euclidiana :: "hypot_kernel \<Rightarrow> point \<Rightarrow> point \<Rightarrow> error + int" where
  "distancia_euclidiana norm2 a b =
     py_int (fmul (hypot norm2 (fsub (fst a) (fst b)) (fsub (snd a) (snd b))) (Fin 1000))"

section \<open>otimizar_rota\<close>

text \<open>
  A list comprehension over calls that may raise: the elements are evaluated from left to
  right and the first exception leaves the comprehension.
\<close>

fun collect :: "(error + 'a) list \<Rightarrow> error + 'a list" where
  "collect [] = Inr []"
| "collect (r # rs) =
     (case r of
        Inl e \<Rightarrow> Inl e
      | Inr v \<Rightarrow> (case collect rs of Inl e \<Rightarrow> Inl e | Inr vs \<Rightarrow> Inr (v # vs)))"

definition dist_matrix :: "hypot_kernel \<Rightarrow> point list \<Rightarrow> error + int list list" where
  "dist_matrix norm2 pontos_coordenadas =
     (let size = length pontos_coordenadas in
      collect (map (\<lambda>i. collect (map (\<lambda>j.
                 distancia_euclidiana norm2 (pontos_coordenadas ! i) (pontos_coordenadas ! j))
               [0..<size])) [0..<size]))"

subsection \<open>The routing library as seen by the function\<close>

text \<open>
  The routing library (OR-Tools) is not part of the repository. The function uses it
  through the calls modelled here, and the solver itself is a parameter of the model.

  \<open>RoutingIndexManager(n, 1, 0)\<close>: one vehicle that starts and ends at node 0. The
  library numbers the nodes \<open>0..n-1\<close> as indices \<open>0..n-1\<close>, the start of the vehicle
  is index 0 and its end is the extra index \<open>n\<close>, which stands for node 0 again.
\<close>

definition IndexToNode :: "nat \<Rightarrow> nat \<Rightarrow> nat" where
  "IndexToNode n index = (if index < n then index else 0)"

definition Start :: nat where
  "Start = 0"

definition IsEnd :: "nat \<Rightarrow> nat \<Rightarrow> bool" where
  "IsEnd n index \<longleftrightarrow> n \<le> index"

text \<open>
  The callback registered as arc cost. The library calls it with indices of the manager
  only, so both nodes are below \<open>n\<close>, the size of the matrix.
\<close>

definition distance_callback :: "nat \<Rightarrow> int list list \<Rightarrow> nat \<Rightarrow> nat \<Rightarrow> int" where
  "distance_callback n m from_index to_index =
     (let from_node = IndexToNode n from_index; to_node = IndexToNode n to_index
      in m ! from_node ! to_node)"

text \<open>
  What \<open>SolveWithParameters\<close> hands back: an assignment, read through
  \<open>solution.Value(routing.NextVar(index))\<close> and \<open>solution.ObjectiveValue()\<close>, or
  \<open>None\<close>. The library also knows whether the search stopped at its time limit;
  the function never asks for it.
\<close>

record assignment =
  next_value :: "nat \<Rightarrow> nat"
  objective_value :: int

record solve_result =
  limit_reached :: bool
  solution :: "assignment option"

type_synonym solver = "int list list \<Rightarrow> solve_result"

text \<open>
  The loop that reads the sequence off the assignment. Whether it ends depends on the
  assignment, so not returning is the value \<open>None\<close>.
\<close>

partial_function (option) extrair :: "nat \<Rightarrow> (nat \<Rightarrow> nat) \<Rightarrow> nat \<Rightarrow> nat list \<Rightarrow> nat list option" where
  "extrair n nxt index sequencia_otimizada =
     (if \<not> IsEnd n index
      then extrair n nxt (nxt index) (sequencia_otimizada @ [IndexToNode n index])
      else Some (sequencia_otimizada @ [IndexToNode n index]))"

text \<open>
  The result is \<open>None\<close> when the extraction loop does not end, \<open>Some (Inl e)\<close> when
  the exception \<open>e\<close> is raised, and \<open>Some (Inr (sequencia_otimizada, distancia_total))\<close>
  on a normal return. \<open>distancia_total\<close> is the true division of the objective by 1000,
  a finite double.
\<close>

definition otimizar_rota ::
  "hypot_kernel \<Rightarrow> solver \<Rightarrow> point list \<Rightarrow> (error + nat list \<times> real) option" where
  "otimizar_rota norm2 solver pontos_coordenadas =
     (if length pontos_coordenadas < 2 then Some (Inl (ValueError TooFewPoints))
      else case dist_matrix norm2 pontos_coordenadas of
        Inl e \<Rightarrow> Some (Inl e)
      | Inr m \<Rightarrow>
          (case solution (solver m) of
             None \<Rightarrow> Some (Inl RuntimeError)
           | Some sol \<Rightarrow>
               (case extrair (length m) (next_value sol) Start [] of
                  None \<Rightarrow> None
                | Some sequencia_otimizada \<Rightarrow>
                    (case py_truediv (objective_value sol) 1000 of
                       Inl e \<Rightarrow> Some (Inl e)
                     | Inr distancia_total \<Rightarrow>
                         Some (Inr (sequencia_otimizada, distancia_total))))))"

subsection \<open>What the routing model guarantees\<close>

text \<open>
  The constraints the routing model puts on every assignment it returns, for one vehicle
  and \<open>n\<close> mandatory nodes: the successor of an index is an index that is not the
  start, no two indices have the same successor, and no chain of successors comes back
  to where it began. \<open>follow\<close> walks a chain for \<open>k\<close> steps and stops at the end index.
\<close>

fun follow :: "(nat \<Rightarrow> nat) \<Rightarrow> nat \<Rightarrow> nat \<Rightarrow> nat \<Rightarrow> nat" where
  "follow nxt n 0 index = index"
| "follow nxt n (Suc k) index = (if IsEnd n index then index else follow nxt n k (nxt index))"

definition path_constraints :: "nat \<Rightarrow> (nat \<Rightarrow> nat) \<Rightarrow> bool" where
  "path_constraints n nxt \<longleftrightarrow>
     (\<forall>i<n. nxt i \<le> n \<and> nxt i \<noteq> Start)
   \<and> (\<forall>i<n. \<forall>j<n. nxt i = nxt j \<longrightarrow> i = j)
   \<and> (\<forall>i<n. \<forall>k\<in>{1..n}. follow nxt n k i \<noteq> i)"

text \<open>
  The objective of the model: \<open>SetArcCostEvaluatorOfAllVehicles\<close> makes it the sum, over
  every index that has a successor, of what \<open>distance_callback\<close> returns for the arc.
  The library computes in signed 64-bit integers, so this is its objective only while
  every entry of the matrix and the sum itself are within that range.
\<close>

definition INT64_MAX :: int where
  "INT64_MAX = 2 ^ 63 - 1"

definition within_int64 :: "int list list \<Rightarrow> bool" where
  "within_int64 m \<longleftrightarrow> (\<forall>row \<in> set m. \<forall>c \<in> set row. 0 \<le> c \<and> c \<le> INT64_MAX)"

definition arc_cost_sum :: "int list list \<Rightarrow> (nat \<Rightarrow> nat) \<Rightarrow> int" where
  "arc_cost_sum m nxt = (\<Sum>i<length m. distance_callback (length m) m i (nxt i))"

definition arc_cost_objective :: "int list list \<Rightarrow> assignment \<Rightarrow> bool" where
  "arc_cost_objective m sol \<longleftrightarrow>
     (within_int64 m \<and> arc_cost_sum m (next_value sol) \<le> INT64_MAX
        \<longrightarrow> objective_value sol = arc_cost_sum m (next_value sol))"

subsection \<open>Vocabulary of the properties\<close>

definition isfinite :: "pyfloat \<Rightarrow> bool" where
  "isfinite a = (case a of Fin x \<Rightarrow> True | _ \<Rightarrow> False)"

definition finite_point :: "point \<Rightarrow> bool" where
  "finite_point p \<longleftrightarrow> isfinite (fst p) \<and> isfinite (snd p)"

text \<open>\<open>-a\<close> on floats.\<close>

definition fneg :: "pyfloat \<Rightarrow> pyfloat" where
  "fneg a = (case a of Fin x \<Rightarrow> Fin (- x) | PInf \<Rightarrow> NInf | NInf \<Rightarrow> PInf | NaN \<Rightarrow> NaN)"

text \<open>A list of indices in which every element is followed by its successor.\<close>

abbreviation linked :: "(nat \<Rightarrow> nat) \<Rightarrow> nat list \<Rightarrow> bool" where
  "linked nxt \<equiv> successively (\<lambda>x y. y = nxt x)"

section \<open>obter_rota_real\<close>

text \<open>
  The GeoJSON answer of the route service, as far as the module reads it. A key that may
  be missing from a dictionary is an optional field; the numbers are floats.
\<close>

record rota_summary =
  distance :: "pyfloat option"
  duration :: "pyfloat option"

record rota_properties =
  summary :: "rota_summary option"

record rota_feature =
  properties :: "rota_properties option"

record geojson =
  features :: "rota_feature list option"

text \<open>
  The route service: building the client and asking for directions either gives a GeoJSON
  value or raises. \<open>ApiError\<close> is the service's own exception; every other exception
  that \<open>except Exception\<close> catches is \<open>OtherException\<close>. Both carry their message.
\<close>

datatype py_exception = ApiError string | OtherException string

type_synonym route_service = "string \<Rightarrow> point list \<Rightarrow> string \<Rightarrow> py_exception + geojson"

text \<open>
  The result is the lines printed and the value returned, Python's \<open>None\<close> being
  \<open>None\<close>. No exception leaves the function.
\<close>

definition obter_rota_real ::
  "route_service \<Rightarrow> string \<Rightarrow> point list \<Rightarrow> string \<Rightarrow> string list \<times> geojson option" where
  "obter_rota_real ors api_key pontos_otimizados profile =
     (case ors api_key pontos_otimizados profile of
        Inr caminhos \<Rightarrow> ([], Some caminhos)
      | Inl (ApiError e) \<Rightarrow> ([''Erro na API OpenRouteService: '' @ e], None)
      | Inl (OtherException e) \<Rightarrow> ([''Erro ao obter rota real: '' @ e], None))"

section \<open>calcular_estatisticas_rota\<close>

record estatisticas =
  num_pontos :: nat
  num_paradas :: nat
  distancia_km :: pyfloat
  tempo_horas :: pyfloat
  tempo_minutos :: pyfloat

text \<open>
  The \<open>else\<close> branch is kept as a function of its own, \<open>estatisticas_euclidianas\<close>;
  \<open>soma_euclidiana\<close> is its loop over the consecutive pairs of the sequence. An index
  outside the list of points raises IndexError; the indices are node numbers, so they
  are not negative.
\<close>

fun soma_euclidiana :: "hypot_kernel \<Rightarrow> point list \<Rightarrow> nat list \<Rightarrow> int \<Rightarrow> error + int" where
  "soma_euclidiana norm2 pontos_coordenadas (idx_atual # idx_proximo # resto) distancia_total =
     (if idx_atual < length pontos_coordenadas \<and> idx_proximo < length pontos_coordenadas
      then (case distancia_euclidiana norm2 (pontos_coordenadas ! idx_atual)
                   (pontos_coordenadas ! idx_proximo) of
              Inl e \<Rightarrow> Inl e
            | Inr d \<Rightarrow> soma_euclidiana norm2 pontos_coordenadas (idx_proximo # resto)
                        (distancia_total + d))
      else Inl IndexError)"
| "soma_euclidiana norm2 pontos_coordenadas _ distancia_total = Inr distancia_total"

definition estatisticas_euclidianas ::
  "hypot_kernel \<Rightarrow> point list \<Rightarrow> nat list \<Rightarrow> error + estatisticas" where
  "estatisticas_euclidianas norm2 pontos_coordenadas sequencia_otimizada =
     (case soma_euclidiana norm2 pontos_coordenadas sequencia_otimizada 0 of
        Inl e \<Rightarrow> Inl e
      | Inr distancia_total \<Rightarrow>
          (case py_truediv distancia_total 1000 of
             Inl e \<Rightarrow> Inl e
           | Inr km \<Rightarrow>
               Inr \<lparr>num_pontos = length pontos_coordenadas,
                    num_paradas = length sequencia_otimizada,
                    distancia_km = Fin km,
                    tempo_horas = fdiv_literal (Fin km) 60,
                    tempo_minutos = fmul (fdiv_literal (Fin km) 60) (Fin 60)\<rparr>))"

text \<open>\<open>d.get(key, 0)\<close> on an optional number.\<close>

definition get_or_zero :: "pyfloat option \<Rightarrow> pyfloat" where
  "get_or_zero v = (case v of None \<Rightarrow> Fin 0 | Some x \<Rightarrow> x)"

text \<open>
  \<open>caminhos and 'features' in caminhos\<close> holds exactly when \<open>caminhos\<close> is a
  dictionary with the key \<open>features\<close>: such a dictionary is not empty, hence truthy.
  \<open>.get('properties', {})\<close> and \<open>.get('summary', {})\<close> give an empty dictionary for a
  missing key, in which \<open>distance\<close> and \<open>duration\<close> are missing too.
\<close>

definition calcular_estatisticas_rota ::
  "hypot_kernel \<Rightarrow> point list \<Rightarrow> nat list \<Rightarrow> geojson option \<Rightarrow> error + estatisticas" where
  "calcular_estatisticas_rota norm2 pontos_coordenadas sequencia_otimizada caminhos =
     (case (case caminhos of None \<Rightarrow> None | Some c \<Rightarrow> features c) of
        Some fs \<Rightarrow>
          (case fs of
             [] \<Rightarrow> Inl IndexError
           | f # _ \<Rightarrow>
               (let summary_dict = (case properties f of None \<Rightarrow> None | Some p \<Rightarrow> summary p);
                    dist = get_or_zero (case summary_dict of None \<Rightarrow> None | Some s \<Rightarrow> distance s);
                    dur = get_or_zero (case summary_dict of None \<Rightarrow> None | Some s \<Rightarrow> duration s)
                in Inr \<lparr>num_pontos = length pontos_coordenadas,
                        num_paradas = length sequencia_otimizada,
                        distancia_km = fdiv_literal dist 1000,
                        tempo_horas = fdiv_literal dur 3600,
                        tempo_minutos = fdiv_literal dur 60\<rparr>))
      | None \<Rightarrow> estatisticas_euclidianas norm2 pontos_coordenadas sequencia_otimizada)"

section \<open>A sample run\<close>

text \<open>
  A kernel for \<open>math.hypot\<close> that rounds the exact norm to the nearest double, three
  points on one parallel, and a solver answer for them: the assignment
  \<open>0 \<rightarrow> 2 \<rightarrow> 1 \<rightarrow> end\<close> with the objective the model gives it. Used to run the
  definitions on concrete data.
\<close>

definition hypot_nearest :: hypot_kernel where
  "hypot_nearest x y = round_double (sqrt (x\<^sup>2 + y\<^sup>2))"

definition sample_pontos :: "point list" where
  "sample_pontos = [(Fin 0, Fin 0), (Fin 2, Fin 0), (Fin 1, Fin 0)]"

definition sample_next :: "nat \<Rightarrow> nat" where
  "sample_next i = (if i = 0 then 2 else if i = 2 then 1 else 3)"

definition sample_solver :: solver where
  "sample_solver m =
     \<lparr>limit_reached = False,
      solution = Some \<lparr>next_value = sample_next, objective_value = 4000\<rparr>\<rparr>"

definition timeout_solver :: solver where
  "timeout_solver m = \<lparr>limit_reached = True, solution = None\<rparr>"

section \<open>Properties\<close>

subsection \<open>Auxiliary facts: rounding to a double\<close>

lemma round_half_even_of_int [simp]: "round_half_even (of_int k) = k"
  by (simp add: round_half_even_def)

lemma round_half_even_minus: "round_half_even (- q) = - round_half_even q"
proof (cases "q = of_int \<lfloor>q\<rfloor>")
  case True
  then obtain k where "q = of_int k" ..
  then have "- q = of_int (- k)" by simp
  then show ?thesis using \<open>q = of_int k\<close> by (simp only: round_half_even_of_int)
next
  case False
  then have fl: "\<lfloor>- q\<rfloor> = - \<lfloor>q\<rfloor> - 1"
  proof -
    have "\<lfloor>- q\<rfloor> = - \<lceil>q\<rceil>" by (simp add: ceiling_def)
    moreover have "\<lceil>q\<rceil> = \<lfloor>q\<rfloor> + 1" using False by (simp add: ceiling_altdef)
    ultimately show ?thesis by simp
  qed
  have r: "0 < q - of_int \<lfloor>q\<rfloor>" "q - of_int \<lfloor>q\<rfloor> < 1"
    using False by linarith+
  show ?thesis
    unfolding round_half_even_def Let_def fl using r by (auto simp: field_simps)
qed

lemma round_half_even_nonneg: "0 \<le> q \<Longrightarrow> 0 \<le> round_half_even q"
  by (auto simp: round_half_even_def Let_def)

lemma double_exponent_minus [simp]: "double_exponent (- x) = double_exponent x"
  by (simp add: double_exponent_def)

lemma round_double_zero [simp]: "round_double 0 = Fin 0"
  by (simp add: round_double_def)

lemma round_double_minus: "round_double (- x) = fneg (round_double x)"
  by (simp add: round_double_def Let_def fneg_def round_half_even_minus)

lemma round_double_not_NaN [simp]: "round_double x \<noteq> NaN"
  by (simp add: round_double_def Let_def)

lemma round_double_nonneg:
  assumes "0 \<le> x" and "round_double x = Fin y"
  shows "0 \<le> y"
proof (cases "x = 0")
  case True
  then show ?thesis using assms by simp
next
  case False
  let ?e = "double_exponent x"
  have "0 \<le> x / 2 powr of_int ?e" using assms(1) by simp
  then have "0 \<le> round_half_even (x / 2 powr of_int ?e)" by (rule round_half_even_nonneg)
  then have "0 \<le> real_of_int (round_half_even (x / 2 powr of_int ?e)) * 2 powr of_int ?e"
    by simp
  then show ?thesis
    using assms(2) False by (simp add: round_double_def Let_def split: if_splits)
qed

lemma round_double_exact:
  fixes m e :: int
  assumes x: "x = of_int m * 2 powr of_int e"
    and m: "\<bar>m\<bar> < 2 ^ 53" and e: "- 1074 \<le> e" "e \<le> 971"
  shows "round_double x = Fin x"
proof (cases "x = 0")
  case True
  then show ?thesis by simp
next
  case False
  define d where "d = double_exponent x"
  have absx: "\<bar>x\<bar> = of_int \<bar>m\<bar> * 2 powr of_int e" using x by (simp add: abs_mult)
  have "real_of_int \<bar>m\<bar> < 2 ^ 53" using m by (simp only: of_int_less_numeral_power_cancel_iff)
  then have lt: "\<bar>x\<bar> < 2 ^ 53 * 2 powr of_int e" unfolding absx by simp
  also have "\<dots> = 2 powr (of_int (e + 52) + 1)"
    by (simp add: powr_add powr_realpow [symmetric])
  finally have up: "\<bar>x\<bar> < 2 powr (of_int (e + 52) + 1)" .
  have "\<lfloor>log 2 \<bar>x\<bar>\<rfloor> \<le> e + 52"
  proof -
    have "log 2 \<bar>x\<bar> < of_int (e + 52) + 1"
      using up False by (simp add: log_less_iff)
    then show ?thesis by linarith
  qed
  then have de: "d \<le> e" using e by (simp add: d_def double_exponent_def)
  define n where "n = nat (e - d)"
  have en: "real_of_int e = real_of_int d + real n" using de by (simp add: n_def)
  have p: "(2 :: real) powr of_int e = 2 ^ n * 2 powr of_int d"
    unfolding en by (simp add: powr_add powr_realpow)
  have q: "x / 2 powr of_int d = real_of_int (m * 2 ^ n)"
    by (simp add: x p)
  have y: "real_of_int (round_half_even (x / 2 powr of_int d)) * 2 powr of_int d = x"
    unfolding q round_half_even_of_int by (simp add: x p)
  have "(2 :: real) powr of_int e \<le> 2 powr 971" using e by (intro powr_mono) simp_all
  then have "(2 :: real) powr of_int e \<le> 2 ^ 971" by simp
  then have "(2 :: real) ^ 53 * 2 powr of_int e \<le> 2 ^ 53 * 2 ^ 971" by simp
  then have "\<bar>x\<bar> < 2 ^ 1024" using lt by simp
  then show ?thesis using False y by (simp add: round_double_def Let_def d_def)
qed

lemma round_double_of_int: "\<bar>k\<bar> < 2 ^ 53 \<Longrightarrow> round_double (of_int k) = Fin (of_int k)"
  by (rule round_double_exact [where m = k and e = 0]) simp_all

lemma round_double_dyadic:
  assumes "\<bar>k\<bar> < 2 ^ 53" and "n \<le> 1074"
  shows "round_double (of_int k / 2 ^ n) = Fin (of_int k / 2 ^ n)"
proof (rule round_double_exact [where m = k and e = "- int n"])
  show "real_of_int k / 2 ^ n = of_int k * 2 powr of_int (- int n)"
    by (simp add: powr_minus powr_realpow divide_inverse)
qed (use assms in simp_all)

lemma round_double_numeral:
  "(numeral n :: int) < 2 ^ 53 \<Longrightarrow> round_double (numeral n) = Fin (numeral n)"
  using round_double_of_int [of "numeral n"] by simp

lemma round_double_neg_numeral:
  "(numeral n :: int) < 2 ^ 53 \<Longrightarrow> round_double (- numeral n) = Fin (- numeral n)"
  using round_double_of_int [of "- numeral n"] by simp

lemma round_double_one [simp]: "round_double 1 = Fin 1"
  using round_double_of_int [of 1] by simp

lemma round_double_overflow:
  assumes "2 ^ 1024 \<le> x"
  shows "round_double x = PInf"
proof -
  define d where "d = double_exponent x"
  have pos: "0 < x" using assms by (smt (verit) zero_less_power)
  have "(2 :: real) powr 1024 \<le> x" using assms by simp
  then have "1024 \<le> log 2 x" using pos by (simp add: le_log_iff)
  then have fl: "1024 \<le> \<lfloor>log 2 \<bar>x\<bar>\<rfloor>" using pos by (simp add: le_floor_iff)
  then have d: "d = \<lfloor>log 2 \<bar>x\<bar>\<rfloor> - 52" "972 \<le> d"
    by (simp_all add: d_def double_exponent_def)
  have "2 powr of_int \<lfloor>log 2 \<bar>x\<bar>\<rfloor> \<le> \<bar>x\<bar>"
    using pos floor_log_eq_powr_iff [of "\<bar>x\<bar>" 2 "\<lfloor>log 2 \<bar>x\<bar>\<rfloor>"] by simp
  then have "2 powr (of_int d + 52) \<le> x" using pos d(1) by simp
  then have "2 powr 52 * 2 powr of_int d \<le> x" by (simp add: powr_add mult.commute)
  then have q: "2 powr 52 \<le> x / 2 powr of_int d" by (simp add: pos_le_divide_eq)
  have "(2 :: real) powr 52 = of_int (2 ^ 52)" by simp
  then have "real_of_int (2 ^ 52) \<le> x / 2 powr of_int d" using q by simp
  then have "2 ^ 52 \<le> \<lfloor>x / 2 powr of_int d\<rfloor>" by (simp only: le_floor_iff)
  moreover have "\<lfloor>q\<rfloor> \<le> round_half_even q" for q
    by (simp add: round_half_even_def Let_def)
  ultimately have "2 ^ 52 \<le> round_half_even (x / 2 powr of_int d)" by (rule order_trans)
  then have r: "(2 :: real) ^ 52 \<le> of_int (round_half_even (x / 2 powr of_int d))"
    by (metis of_int_le_iff of_int_numeral of_int_power)
  have "(2 :: real) powr 972 \<le> 2 powr of_int d" using d(2) by (intro powr_mono) simp_all
  then have e: "(2 :: real) ^ 972 \<le> 2 powr of_int d" by simp
  have "(2 :: real) ^ 52 * 2 ^ 972 \<le> of_int (round_half_even (x / 2 powr of_int d)) * 2 powr of_int d"
    using r e by (intro mult_mono) simp_all
  moreover have "(2 :: real) ^ 52 * 2 ^ 972 = 2 ^ 1024" by (simp add: power_add [symmetric])
  ultimately have "2 ^ 1024 \<le> \<bar>real_of_int (round_half_even (x / 2 powr of_int d)) * 2 powr of_int d\<bar>"
    by linarith
  then show ?thesis using pos by (simp add: round_double_def Let_def d_def)
qed

subsection \<open>Auxiliary facts: the distance model\<close>

lemma fsub_finite:
  "fsub a b = Fin d \<Longrightarrow> \<exists>x y. a = Fin x \<and> b = Fin y \<and> round_double (x - y) = Fin d"
  by (cases a; cases b) simp_all

lemma hypot_finite:
  "hypot norm2 a b = Fin h \<Longrightarrow> \<exists>x y. a = Fin x \<and> b = Fin y"
  by (cases a; cases b) (simp_all add: hypot_def split: if_splits)

lemma fmul_1000_finite:
  "fmul a (Fin 1000) = Fin p \<Longrightarrow> \<exists>h. a = Fin h \<and> round_double (h * 1000) = Fin p"
  by (cases a) (simp_all add: fmul_def fsign_def)

lemma py_int_finite: "py_int a = Inr v \<Longrightarrow> \<exists>p. a = Fin p \<and> v = (if 0 \<le> p then \<lfloor>p\<rfloor> else \<lceil>p\<rceil>)"
  by (cases a) auto

lemma distancia_euclidiana_Inr:
  assumes "distancia_euclidiana norm2 a b = Inr v"
  shows "\<exists>xi yi xj yj dx dy h p.
           a = (Fin xi, Fin yi) \<and> b = (Fin xj, Fin yj)
         \<and> round_double (xi - xj) = Fin dx \<and> round_double (yi - yj) = Fin dy
         \<and> hypot norm2 (Fin dx) (Fin dy) = Fin h
         \<and> round_double (h * 1000) = Fin p
         \<and> v = (if 0 \<le> p then \<lfloor>p\<rfloor> else \<lceil>p\<rceil>)"
proof -
  let ?u = "fsub (fst a) (fst b)" and ?w = "fsub (snd a) (snd b)"
  from assms obtain p where p: "fmul (hypot norm2 ?u ?w) (Fin 1000) = Fin p"
      and v: "v = (if 0 \<le> p then \<lfloor>p\<rfloor> else \<lceil>p\<rceil>)"
    unfolding distancia_euclidiana_def by (blast dest: py_int_finite)
  from p obtain h where h: "hypot norm2 ?u ?w = Fin h" and hp: "round_double (h * 1000) = Fin p"
    by (blast dest: fmul_1000_finite)
  from h obtain dx dy where d: "?u = Fin dx" "?w = Fin dy"
    by (blast dest: hypot_finite)
  from d(1) obtain xi xj where x: "fst a = Fin xi" "fst b = Fin xj" "round_double (xi - xj) = Fin dx"
    by (blast dest: fsub_finite)
  from d(2) obtain yi yj where y: "snd a = Fin yi" "snd b = Fin yj" "round_double (yi - yj) = Fin dy"
    by (blast dest: fsub_finite)
  have "a = (Fin xi, Fin yi)" "b = (Fin xj, Fin yj)"
    using x(1,2) y(1,2) by (simp_all add: prod_eq_iff)
  moreover have "hypot norm2 (Fin dx) (Fin dy) = Fin h" using h d by simp
  ultimately show ?thesis using x(3) y(3) hp v by blast
qed

lemma collect_all_Inr:
  "(\<And>x. x \<in> set xs \<Longrightarrow> f x = Inr (g x)) \<Longrightarrow> collect (map f xs) = Inr (map g xs)"
  by (induction xs) simp_all

lemma collect_Inl_mem: "collect rs = Inl e \<Longrightarrow> Inl e \<in> set rs"
  by (induction rs) (auto split: sum.splits)

lemma collect_has_Inl: "Inl e \<in> set rs \<Longrightarrow> \<exists>e'. collect rs = Inl e'"
  by (induction rs) (auto split: sum.splits)

lemma collect_length: "collect rs = Inr vs \<Longrightarrow> length vs = length rs"
  by (induction rs arbitrary: vs) (auto split: sum.splits)

lemma collect_nth: "collect rs = Inr vs \<Longrightarrow> i < length rs \<Longrightarrow> rs ! i = Inr (vs ! i)"
proof (induction rs arbitrary: vs i)
  case Nil
  then show ?case by simp
next
  case (Cons r rs)
  then show ?case by (cases i) (auto split: sum.splits)
qed

lemma dist_matrix_length: "dist_matrix norm2 pts = Inr m \<Longrightarrow> length m = length pts"
  unfolding dist_matrix_def Let_def by (drule collect_length) simp

lemma dist_matrix_entry:
  assumes m: "dist_matrix norm2 pts = Inr m" and i: "i < length pts" and j: "j < length pts"
  shows "distancia_euclidiana norm2 (pts ! i) (pts ! j) = Inr (m ! i ! j)"
proof -
  let ?row = "\<lambda>i. collect (map (\<lambda>j. distancia_euclidiana norm2 (pts ! i) (pts ! j)) [0..<length pts])"
  have "map ?row [0..<length pts] ! i = Inr (m ! i)"
    using m i unfolding dist_matrix_def Let_def by (intro collect_nth) simp_all
  then have "?row i = Inr (m ! i)" using i by simp
  then have "map (\<lambda>j. distancia_euclidiana norm2 (pts ! i) (pts ! j)) [0..<length pts] ! j
               = Inr (m ! i ! j)"
    using j by (intro collect_nth) simp_all
  then show ?thesis using j by simp
qed

lemma fsub_swap: "fsub b a = fneg (fsub a b)"
proof (cases a; cases b)
  fix x y assume "a = Fin x" "b = Fin y"
  then show ?thesis using round_double_minus [of "x - y"] by simp
qed (simp_all add: fneg_def)

lemma max_abs_zero: "max \<bar>x\<bar> \<bar>y\<bar> = 0 \<longleftrightarrow> x = 0 \<and> y = (0 :: real)"
  by (auto simp: max_def)

lemma hypot_fneg: "hypot norm2 (fneg a) (fneg b) = hypot norm2 a b"
  by (cases a; cases b) (simp_all add: hypot_def fneg_def isinf_def max_abs_zero)

lemma distancia_euclidiana_sym:
  "distancia_euclidiana norm2 a b = distancia_euclidiana norm2 b a"
  unfolding distancia_euclidiana_def
  by (subst fsub_swap [of "fst b"], subst fsub_swap [of "snd b"]) (simp only: hypot_fneg)

lemma distancia_euclidiana_self:
  assumes "distancia_euclidiana norm2 a a = Inr v"
  shows "v = 0"
proof -
  from distancia_euclidiana_Inr [OF assms]
  obtain xi yi dx dy h p where a: "a = (Fin xi, Fin yi)"
      and d: "round_double (xi - xi) = Fin dx" "round_double (yi - yi) = Fin dy"
      and h: "hypot norm2 (Fin dx) (Fin dy) = Fin h"
      and p: "round_double (h * 1000) = Fin p"
      and v: "v = (if 0 \<le> p then \<lfloor>p\<rfloor> else \<lceil>p\<rceil>)"
    by auto
  have "dx = 0" "dy = 0" using d by simp_all
  then have "h = 0" using h by (simp add: hypot_def max_abs_zero)
  then have "p = 0" using p by simp
  then show ?thesis using v by simp
qed

subsection \<open>Auxiliary facts: the extraction loop\<close>

lemma next_is_fresh:
  assumes rng: "\<forall>i<n. nxt i \<le> n \<and> nxt i \<noteq> 0"
    and inj: "\<forall>i<n. \<forall>j<n. nxt i = nxt j \<longrightarrow> i = j"
    and d: "distinct (xs @ [i])" and sub: "set xs \<subseteq> {..<n}" and i: "i < n"
    and l: "linked nxt (xs @ [i])" and h: "hd (xs @ [i]) = 0"
  shows "nxt i \<notin> set (xs @ [i])"
proof
  let ?zs = "xs @ [i]"
  assume "nxt i \<in> set ?zs"
  then obtain k where k: "k < length ?zs" "?zs ! k = nxt i"
    unfolding in_set_conv_nth by blast
  show False
  proof (cases k)
    case 0
    then have "nxt i = 0" using k h by (simp add: hd_conv_nth)
    then show False using rng i by auto
  next
    case (Suc k')
    then have "?zs ! Suc k' = nxt (?zs ! k')"
      using successively_nth [OF l, of k'] k by simp
    then have e: "nxt (?zs ! k') = nxt i" using k Suc by simp
    have k': "k' < length xs" using k Suc by simp
    then have "?zs ! k' = xs ! k'" by (simp add: nth_append)
    moreover have "xs ! k' < n" using sub k' by (auto simp: subset_iff)
    ultimately have "xs ! k' = i" using inj i e by auto
    then have "i \<in> set xs" using k' by (auto simp: in_set_conv_nth)
    then show False using d by simp
  qed
qed

lemma extrair_path:
  assumes rng: "\<forall>i<n. nxt i \<le> n \<and> nxt i \<noteq> 0"
    and inj: "\<forall>i<n. \<forall>j<n. nxt i = nxt j \<longrightarrow> i = j"
  shows "distinct (xs @ [i]) \<Longrightarrow> set xs \<subseteq> {..<n} \<Longrightarrow> i \<le> n \<Longrightarrow>
         linked nxt (xs @ [i]) \<Longrightarrow> hd (xs @ [i]) = 0 \<Longrightarrow>
         \<exists>ys. extrair n nxt i xs = Some (ys @ [0]) \<and> distinct ys \<and> set ys \<subseteq> {..<n}
              \<and> linked nxt (ys @ [n]) \<and> hd (ys @ [n]) = 0"
proof (induction "n - length xs" arbitrary: xs i)
  case 0
  then have "length xs = n"
  proof -
    have "card (set xs) \<le> card {..<n}" using 0(3) by (intro card_mono) simp_all
    moreover have "card (set xs) = length xs" using 0(2) by (simp add: distinct_card)
    ultimately show ?thesis using 0(1) by simp
  qed
  then have "set xs = {..<n}"
    using 0(2,3) by (intro card_subset_eq) (simp_all add: distinct_card)
  then have "i = n" using 0(2,4) by (cases "i < n") auto
  then show ?case
    using 0 by (subst extrair.simps) (auto simp: IsEnd_def IndexToNode_def)
next
  case (Suc d)
  show ?case
  proof (cases "i < n")
    case False
    then have "i = n" using Suc.prems by simp
    then show ?thesis
      using Suc.prems by (subst extrair.simps) (auto simp: IsEnd_def IndexToNode_def)
  next
    case True
    have fresh: "nxt i \<notin> set (xs @ [i])"
      using next_is_fresh [OF rng inj Suc.prems(1,2) True Suc.prems(4,5)] .
    have len: "length xs < n"
    proof -
      have "card (set (xs @ [i])) \<le> card {..<n}"
        using Suc.prems(2) True by (intro card_mono) auto
      then show ?thesis using Suc.prems(1) distinct_card [of "xs @ [i]"] by simp
    qed
    have "\<exists>ys. extrair n nxt (nxt i) (xs @ [i]) = Some (ys @ [0]) \<and> distinct ys \<and> set ys \<subseteq> {..<n}
              \<and> linked nxt (ys @ [n]) \<and> hd (ys @ [n]) = 0"
    proof (rule Suc.hyps(1))
      show "d = n - length (xs @ [i])" using Suc.hyps(2) by simp
      show "distinct ((xs @ [i]) @ [nxt i])" using fresh Suc.prems(1) by simp
      show "set (xs @ [i]) \<subseteq> {..<n}" using Suc.prems(2) True by simp
      show "nxt i \<le> n" using rng True by simp
      show "linked nxt ((xs @ [i]) @ [nxt i])"
        using Suc.prems(4) by (simp add: successively_append_iff)
      show "hd ((xs @ [i]) @ [nxt i]) = 0" using Suc.prems(5) by (cases xs) simp_all
    qed
    moreover have "extrair n nxt i xs = extrair n nxt (nxt i) (xs @ [i])"
      using True by (subst extrair.simps) (simp add: IsEnd_def IndexToNode_def)
    ultimately show ?thesis by simp
  qed
qed

lemma follow_inside:
  assumes "S \<subseteq> {..<n}" and "nxt ` S \<subseteq> S"
  shows "y \<in> S \<Longrightarrow> follow nxt n k y = (nxt ^^ k) y \<and> (nxt ^^ k) y \<in> S"
proof (induction k arbitrary: y)
  case 0
  then show ?case by simp
next
  case (Suc k)
  have "y < n" using Suc.prems assms(1) by auto
  moreover have "nxt y \<in> S" using Suc.prems assms(2) by auto
  ultimately show ?case
    using Suc.IH [of "nxt y"] by (simp add: IsEnd_def funpow_swap1)
qed

lemma closed_set_has_cycle:
  assumes S: "S \<subseteq> {..<n}" and cl: "nxt ` S \<subseteq> S" and q: "q \<in> S"
  shows "\<exists>y<n. \<exists>k\<in>{1..n}. follow nxt n k y = y"
proof -
  let ?g = "\<lambda>k. (nxt ^^ k) q"
  have img: "?g ` {0..n} \<subseteq> {..<n}"
    using follow_inside [OF S cl q] S by auto
  have "card (?g ` {0..n}) \<le> card {..<n}"
    by (rule card_mono [OF _ img]) simp
  then have "card (?g ` {0..n}) < card {0..n}" by simp
  then have "\<not> inj_on ?g {0..n}" by (rule pigeonhole)
  then obtain a b where ab: "a \<le> n" "b \<le> n" "a \<noteq> b" "?g a = ?g b"
    by (auto simp: inj_on_def)
  have cyc: "\<exists>y<n. \<exists>k\<in>{1..n}. follow nxt n k y = y"
    if lt: "a < b" and bn: "b \<le> n" and eq: "(nxt ^^ a) q = (nxt ^^ b) q" for a b
  proof -
    let ?y = "(nxt ^^ a) q"
    have yS: "?y \<in> S" using follow_inside [OF S cl q] by simp
    have "(nxt ^^ (b - a)) ?y = (nxt ^^ ((b - a) + a)) q"
      unfolding funpow_add by simp
    then have "(nxt ^^ (b - a)) ?y = (nxt ^^ b) q"
      using lt by simp
    then have "follow nxt n (b - a) ?y = ?y"
      using follow_inside [OF S cl yS, of "b - a"] eq by simp
    moreover have "b - a \<in> {1..n}" using lt bn by auto
    moreover have "?y < n" using yS S by auto
    ultimately show ?thesis by blast
  qed
  show ?thesis
  proof (cases "a < b")
    case True
    then show ?thesis using cyc [of a b] ab by simp
  next
    case False
    then have "b < a" using ab by simp
    then show ?thesis using cyc [of b a] ab by simp
  qed
qed

lemma path_covers_all:
  assumes pc: "path_constraints n nxt"
    and d: "distinct ys" and sub: "set ys \<subseteq> {..<n}"
    and l: "linked nxt (ys @ [n])" and h: "hd (ys @ [n]) = 0"
  shows "set ys = {..<n}"
proof (rule ccontr)
  assume ne: "set ys \<noteq> {..<n}"
  let ?Q = "{..<n} - set ys"
  have rng: "\<forall>i<n. nxt i \<le> n \<and> nxt i \<noteq> 0"
    and inj: "\<forall>i<n. \<forall>j<n. nxt i = nxt j \<longrightarrow> i = j"
    and nocyc: "\<forall>i<n. \<forall>k\<in>{1..n}. follow nxt n k i \<noteq> i"
    using pc by (simp_all add: path_constraints_def Start_def)
  from ne sub obtain q where q: "q \<in> ?Q" by auto
  have closed: "nxt ` ?Q \<subseteq> ?Q"
  proof
    fix v assume "v \<in> nxt ` ?Q"
    then obtain u where u: "u < n" "u \<notin> set ys" "v = nxt u" by auto
    have "v \<notin> set (ys @ [n])"
    proof
      assume "v \<in> set (ys @ [n])"
      then obtain k where k: "k < length (ys @ [n])" "(ys @ [n]) ! k = v"
        unfolding in_set_conv_nth by blast
      show False
      proof (cases k)
        case 0
        then have "v = 0" using k h by (simp add: hd_conv_nth)
        then show False using rng u by auto
      next
        case (Suc k')
        then have "(ys @ [n]) ! Suc k' = nxt ((ys @ [n]) ! k')"
          using successively_nth [OF l, of k'] k by simp
        then have e: "nxt ((ys @ [n]) ! k') = nxt u" using k Suc u by simp
        have k': "k' < length ys" using k Suc by simp
        then have "(ys @ [n]) ! k' = ys ! k'" by (simp add: nth_append)
        moreover have "ys ! k' < n" using sub k' by (auto simp: subset_iff)
        ultimately have "ys ! k' = u" using inj u e by auto
        then show False using k' u by (auto simp: in_set_conv_nth)
      qed
    qed
    moreover have "v \<le> n" using rng u by simp
    ultimately show "v \<in> ?Q" by auto
  qed
  have "\<exists>y<n. \<exists>k\<in>{1..n}. follow nxt n k y = y"
    by (rule closed_set_has_cycle [OF _ closed q]) auto
  then show False using nocyc by blast
qed

lemma extrair_tour:
  assumes pc: "path_constraints n nxt" and n: "0 < n"
  shows "\<exists>ys. extrair n nxt Start [] = Some (ys @ [0]) \<and> distinct ys \<and> set ys = {..<n}
              \<and> linked nxt (ys @ [n]) \<and> hd ys = 0"
proof -
  have rng: "\<forall>i<n. nxt i \<le> n \<and> nxt i \<noteq> 0"
    and inj: "\<forall>i<n. \<forall>j<n. nxt i = nxt j \<longrightarrow> i = j"
    using pc by (simp_all add: path_constraints_def Start_def)
  have "\<exists>ys. extrair n nxt 0 [] = Some (ys @ [0]) \<and> distinct ys \<and> set ys \<subseteq> {..<n}
              \<and> linked nxt (ys @ [n]) \<and> hd (ys @ [n]) = 0"
    by (rule extrair_path [OF rng inj]) simp_all
  then obtain ys where ys: "extrair n nxt 0 [] = Some (ys @ [0])" "distinct ys" "set ys \<subseteq> {..<n}"
      "linked nxt (ys @ [n])" "hd (ys @ [n]) = 0"
    by (elim exE conjE)
  have all: "set ys = {..<n}" using path_covers_all [OF pc ys(2-5)] .
  have "ys \<noteq> []"
  proof
    assume "ys = []"
    then have "{..<n} = {}" using all by simp
    then show False using n by (simp add: lessThan_empty_iff)
  qed
  then have "hd ys = 0" using ys(5) by simp
  then show ?thesis
    unfolding Start_def using ys(1,2,4) all by (intro exI [of _ ys]) simp
qed

lemma otimizar_rota_success:
  assumes ok: "otimizar_rota norm2 solver pts = Some (Inr (seq, distancia))"
  obtains m sol where "2 \<le> length pts" "dist_matrix norm2 pts = Inr m"
    "solution (solver m) = Some sol"
    "extrair (length m) (next_value sol) Start [] = Some seq"
    "py_truediv (objective_value sol) 1000 = Inr distancia"
proof -
  have big: "2 \<le> length pts"
    using ok by (cases "length pts < 2") (simp_all add: otimizar_rota_def)
  obtain m where m: "dist_matrix norm2 pts = Inr m"
    using ok big by (cases "dist_matrix norm2 pts") (simp_all add: otimizar_rota_def)
  obtain sol where sol: "solution (solver m) = Some sol"
    using ok big m by (cases "solution (solver m)") (simp_all add: otimizar_rota_def)
  obtain seq' where seq': "extrair (length m) (next_value sol) Start [] = Some seq'"
    using ok big m sol
    by (cases "extrair (length m) (next_value sol) Start []") (simp_all add: otimizar_rota_def)
  have "seq' = seq \<and> py_truediv (objective_value sol) 1000 = Inr distancia"
    using ok big m sol seq'
    by (cases "py_truediv (objective_value sol) 1000") (simp_all add: otimizar_rota_def)
  then show ?thesis using that [OF big m sol] seq' by simp
qed

text \<open>
  Under the constraints of the routing model the extraction loop ends, so a call that
  gets an assignment from the solver returns.
\<close>

lemma otimizar_rota_returns:
  assumes big: "2 \<le> length pts" and m: "dist_matrix norm2 pts = Inr m"
    and sol: "solution (solver m) = Some sol"
    and pc: "path_constraints (length m) (next_value sol)"
    and d: "py_truediv (objective_value sol) 1000 = Inr distancia"
  shows "\<exists>seq. otimizar_rota norm2 solver pts = Some (Inr (seq, distancia))"
proof -
  have len: "length m = length pts" using m by (rule dist_matrix_length)
  have pos: "0 < length m" using big len by linarith
  from extrair_tour [OF pc pos]
  obtain ys where ys: "extrair (length m) (next_value sol) Start [] = Some (ys @ [0])"
    by (elim exE conjE)
  have nb: "\<not> length pts < 2" using big by linarith
  have "otimizar_rota norm2 solver pts = Some (Inr (ys @ [0], distancia))"
    unfolding otimizar_rota_def by (simp only: nb if_False m sum.case sol option.case ys d)
  then show ?thesis by (rule exI)
qed

lemma node_after:
  assumes sub: "set ys = {..<n}" and len: "length ys = n" and k: "k < n"
  shows "IndexToNode n ((ys @ [n]) ! Suc k) = (ys @ [0]) ! Suc k"
proof (cases "Suc k < n")
  case True
  then have "ys ! Suc k \<in> set ys" using len by simp
  then have "ys ! Suc k < n" using sub by simp
  then show ?thesis using True len by (simp add: nth_append IndexToNode_def)
next
  case False
  then have "Suc k = n" using k by simp
  then show ?thesis using len by (simp add: nth_append IndexToNode_def)
qed

lemma objective_along_tour:
  assumes d: "distinct ys" and sub: "set ys = {..<n}" and l: "linked nxt (ys @ [n])"
  shows "(\<Sum>i<n. distance_callback n m i (nxt i))
           = (\<Sum>k<n. m ! ((ys @ [0]) ! k) ! ((ys @ [0]) ! Suc k))"
proof -
  let ?g = "\<lambda>i. distance_callback n m i (nxt i)"
  have len: "length ys = n" using distinct_card [OF d] sub by simp
  have "(\<Sum>i<n. ?g i) = sum ?g (set ys)" using sub by simp
  also have "\<dots> = sum_list (map ?g ys)" using d by (simp add: sum_list_distinct_conv_sum_set)
  also have "\<dots> = (\<Sum>k = 0..<n. ?g (ys ! k))"
    unfolding sum_list_sum_nth using len by (intro sum.cong) simp_all
  also have "\<dots> = (\<Sum>k = 0..<n. m ! ((ys @ [0]) ! k) ! ((ys @ [0]) ! Suc k))"
  proof (rule sum.cong [OF refl])
    fix k assume "k \<in> {0..<n}"
    then have k: "k < n" by simp
    have in_range: "ys ! k < n" using k len sub nth_mem [of k ys] by simp
    have "(ys @ [n]) ! Suc k = nxt ((ys @ [n]) ! k)"
      using successively_nth [OF l, of k] k len by simp
    then have "nxt (ys ! k) = (ys @ [n]) ! Suc k" using k len by (simp add: nth_append)
    then have "IndexToNode n (nxt (ys ! k)) = (ys @ [0]) ! Suc k"
      using node_after [OF sub len k] by simp
    then show "?g (ys ! k) = m ! ((ys @ [0]) ! k) ! ((ys @ [0]) ! Suc k)"
      using in_range k len by (simp add: distance_callback_def IndexToNode_def nth_append)
  qed
  finally show ?thesis by (simp add: atLeast0LessThan)
qed

subsection \<open>Auxiliary facts: the sample run\<close>

lemma upt_two: "[0..<2] = [0, Suc 0]"
  by (simp add: upt_rec)

lemma upt_three: "[0..<3] = [0, 1, 2]"
  by (simp add: upt_rec)

lemma hypot_nearest_axis: "hypot_nearest x 0 = round_double \<bar>x\<bar>"
  by (simp add: hypot_nearest_def)

lemma distancia_same_parallel:
  assumes "round_double (x1 - x2) = Fin d" and "d \<noteq> 0"
  shows "distancia_euclidiana hypot_nearest (Fin x1, Fin y) (Fin x2, Fin y)
           = py_int (fmul (round_double \<bar>d\<bar>) (Fin 1000))"
  using assms by (simp add: distancia_euclidiana_def hypot_def max_abs_zero hypot_nearest_axis)

lemma distancia_same_point:
  "distancia_euclidiana norm2 (Fin x, Fin y) (Fin x, Fin y) = Inr 0"
  by (simp add: distancia_euclidiana_def hypot_def fmul_def)

lemma distancia_on_parallel:
  assumes "round_double (x1 - x2) = Fin d" and "d \<noteq> 0" and "round_double \<bar>d\<bar> = Fin \<bar>d\<bar>"
    and "round_double (\<bar>d\<bar> * 1000) = Fin p" and "0 \<le> p"
  shows "distancia_euclidiana hypot_nearest (Fin x1, Fin y) (Fin x2, Fin y) = Inr \<lfloor>p\<rfloor>"
  using assms distancia_same_parallel [OF assms(1,2), of y] by (simp add: fmul_def)

lemma sample_distances:
  shows "distancia_euclidiana hypot_nearest (Fin 0, Fin 0) (Fin 2, Fin 0) = Inr 2000"
    and "distancia_euclidiana hypot_nearest (Fin 0, Fin 0) (Fin 1, Fin 0) = Inr 1000"
    and "distancia_euclidiana hypot_nearest (Fin 2, Fin 0) (Fin 0, Fin 0) = Inr 2000"
    and "distancia_euclidiana hypot_nearest (Fin 2, Fin 0) (Fin 1, Fin 0) = Inr 1000"
    and "distancia_euclidiana hypot_nearest (Fin 1, Fin 0) (Fin 0, Fin 0) = Inr 1000"
    and "distancia_euclidiana hypot_nearest (Fin 1, Fin 0) (Fin 2, Fin 0) = Inr 1000"
proof -
  have d: "distancia_euclidiana hypot_nearest (Fin x1, Fin 0) (Fin x2, Fin 0) = Inr v"
    if "round_double (x1 - x2) = Fin d" "d \<noteq> 0" "round_double \<bar>d\<bar> = Fin \<bar>d\<bar>"
      "round_double (\<bar>d\<bar> * 1000) = Fin (of_int v)" "0 \<le> v" for x1 x2 d v
    using distancia_on_parallel [OF that(1-4), of 0] that(5) by simp
  show "distancia_euclidiana hypot_nearest (Fin 0, Fin 0) (Fin 2, Fin 0) = Inr 2000"
    by (rule d [where d = "- 2"]) (simp_all add: round_double_numeral round_double_neg_numeral)
  show "distancia_euclidiana hypot_nearest (Fin 0, Fin 0) (Fin 1, Fin 0) = Inr 1000"
    by (rule d [where d = "- 1"]) (simp_all add: round_double_numeral round_double_minus fneg_def)
  show "distancia_euclidiana hypot_nearest (Fin 2, Fin 0) (Fin 0, Fin 0) = Inr 2000"
    by (rule d [where d = 2]) (simp_all add: round_double_numeral)
  show "distancia_euclidiana hypot_nearest (Fin 2, Fin 0) (Fin 1, Fin 0) = Inr 1000"
    by (rule d [where d = 1]) (simp_all add: round_double_numeral)
  show "distancia_euclidiana hypot_nearest (Fin 1, Fin 0) (Fin 0, Fin 0) = Inr 1000"
    by (rule d [where d = 1]) (simp_all add: round_double_numeral)
  show "distancia_euclidiana hypot_nearest (Fin 1, Fin 0) (Fin 2, Fin 0) = Inr 1000"
    by (rule d [where d = "- 1"]) (simp_all add: round_double_numeral round_double_minus fneg_def)
qed

lemma sample_matrix:
  "dist_matrix hypot_nearest sample_pontos = Inr [[0, 2000, 1000], [2000, 0, 1000], [1000, 1000, 0]]"
  by (simp add: dist_matrix_def sample_pontos_def upt_three distancia_same_point sample_distances)

text \<open>Two points \<open>1/128\<close> of a degree apart: every value on the way is a double.\<close>

lemma short_hop_matrix:
  "dist_matrix hypot_nearest [(Fin 0, Fin 0), (Fin (1 / 128), Fin 0)] = Inr [[0, 7], [7, 0]]"
proof -
  have r128: "round_double (1 / 128) = Fin (1 / 128)"
    using round_double_dyadic [of 1 7] by simp
  have m128: "round_double (- (1 / 128)) = Fin (- (1 / 128))"
    using round_double_dyadic [of "- 1" 7] by simp
  have p: "round_double (125 / 16) = Fin (125 / 16)"
    using round_double_dyadic [of 125 4] by simp
  have f: "\<lfloor>125 / 16 :: real\<rfloor> = 7" by simp
  have e01: "distancia_euclidiana hypot_nearest (Fin 0, Fin 0) (Fin (1 / 128), Fin 0) = Inr 7"
    using distancia_on_parallel [where ?x1.0 = 0 and ?x2.0 = "1 / 128" and d = "- (1 / 128)"
        and p = "125 / 16" and y = 0] r128 m128 p f by simp
  have e10: "distancia_euclidiana hypot_nearest (Fin (1 / 128), Fin 0) (Fin 0, Fin 0) = Inr 7"
    using distancia_on_parallel [where ?x1.0 = "1 / 128" and ?x2.0 = 0 and d = "1 / 128"
        and p = "125 / 16" and y = 0] r128 p f by simp
  show ?thesis
    by (simp add: dist_matrix_def upt_two distancia_same_point e01 e10)
qed

lemma sample_path_constraints: "path_constraints 3 sample_next"
  by (simp add: path_constraints_def numeral_3_eq_3 All_less_Suc atLeastAtMostSuc_conv
      sample_next_def IsEnd_def Start_def)

lemma sample_extrair: "extrair 3 sample_next Start [] = Some [0, 2, 1, 0]"
  by (simp add: extrair.simps IsEnd_def IndexToNode_def Start_def sample_next_def)

lemma sample_arc_cost_sum:
  "arc_cost_sum [[0, 2000, 1000], [2000, 0, 1000], [1000, 1000, 0]] sample_next = 4000"
  by (simp add: arc_cost_sum_def distance_callback_def IndexToNode_def sample_next_def
      lessThan_Suc eval_nat_numeral)

lemma sample_objective:
  "arc_cost_objective [[0, 2000, 1000], [2000, 0, 1000], [1000, 1000, 0]]
     \<lparr>next_value = sample_next, objective_value = 4000\<rparr>"
  by (simp add: arc_cost_objective_def sample_arc_cost_sum)

lemma sample_within_int64:
  "within_int64 [[0, 2000, 1000], [2000, 0, 1000], [1000, 1000, 0]]"
  by (simp add: within_int64_def INT64_MAX_def)

lemma truediv_4000: "py_truediv 4000 1000 = Inr 4"
  by (simp add: py_truediv_def round_double_numeral)

lemma truediv_0: "py_truediv 0 1000 = Inr 0"
  by (simp add: py_truediv_def)

lemma sample_run:
  "otimizar_rota hypot_nearest sample_solver sample_pontos = Some (Inr ([0, 2, 1, 0], 4))"
proof -
  have g: "\<not> length sample_pontos < 2" by (simp add: sample_pontos_def)
  have e: "extrair (length [[0, 2000, 1000], [2000, 0, 1000], [1000, 1000, 0::int]])
             sample_next Start [] = Some [0, 2, 1, 0]"
    using sample_extrair by (simp add: numeral_3_eq_3)
  show ?thesis
    unfolding otimizar_rota_def
    by (simp only: g if_False sample_matrix sum.case sample_solver_def solve_result.simps
        option.case e assignment.simps truediv_4000)
qed

text \<open>
  The constraints are needed: an assignment that sends the start straight to the end
  makes the function return the sequence \<open>[0, 0]\<close> for three points.
\<close>

lemma unconstrained_assignment_short_tour:
  "otimizar_rota hypot_nearest
     (\<lambda>m. \<lparr>limit_reached = False,
            solution = Some \<lparr>next_value = (\<lambda>i. 3), objective_value = 0\<rparr>\<rparr>)
     sample_pontos = Some (Inr ([0, 0], 0))"
proof -
  have g: "\<not> length sample_pontos < 2" by (simp add: sample_pontos_def)
  have e: "extrair (length [[0, 2000, 1000], [2000, 0, 1000], [1000, 1000, 0::int]])
             (\<lambda>i. 3) Start [] = Some [0, 0]"
    by (simp add: extrair.simps IsEnd_def IndexToNode_def Start_def)
  show ?thesis
    unfolding otimizar_rota_def
    by (simp only: g if_False sample_matrix sum.case solve_result.simps option.case e
        assignment.simps truediv_0)
qed

subsection \<open>Auxiliary facts: non-finite coordinates\<close>

lemma py_int_error: "py_int x = Inl e \<Longrightarrow> e = ValueError NaNToInt \<or> e = OverflowError"
  by (cases x) auto

lemma distancia_error:
  "distancia_euclidiana norm2 a b = Inl e \<Longrightarrow> e = ValueError NaNToInt \<or> e = OverflowError"
  unfolding distancia_euclidiana_def by (rule py_int_error)

lemma fsub_self_not_finite: "\<not> isfinite x \<Longrightarrow> fsub x x = NaN"
  by (cases x) (simp_all add: isfinite_def)

lemma fsub_self_cases: "fsub x x = NaN \<or> fsub x x = Fin 0"
  by (cases x) simp_all

lemma distancia_self_not_finite:
  assumes "\<not> finite_point p"
  shows "distancia_euclidiana norm2 p p = Inl (ValueError NaNToInt)"
proof -
  have "hypot norm2 (fsub (fst p) (fst p)) (fsub (snd p) (snd p)) = NaN"
    using assms fsub_self_not_finite [of "fst p"] fsub_self_not_finite [of "snd p"]
      fsub_self_cases [of "fst p"] fsub_self_cases [of "snd p"]
    by (auto simp: finite_point_def hypot_def isinf_def)
  then show ?thesis by (simp add: distancia_euclidiana_def fmul_def)
qed

lemma dist_matrix_error:
  assumes "dist_matrix norm2 pts = Inl e"
  shows "e = ValueError NaNToInt \<or> e = OverflowError"
proof -
  let ?row = "\<lambda>i. collect (map (\<lambda>j. distancia_euclidiana norm2 (pts ! i) (pts ! j)) [0..<length pts])"
  have "Inl e \<in> set (map ?row [0..<length pts])"
    using assms unfolding dist_matrix_def Let_def by (rule collect_Inl_mem)
  then obtain i where "?row i = Inl e" by (auto simp: image_iff)
  then have "Inl e \<in> set (map (\<lambda>j. distancia_euclidiana norm2 (pts ! i) (pts ! j)) [0..<length pts])"
    by (rule collect_Inl_mem)
  then obtain j where "distancia_euclidiana norm2 (pts ! i) (pts ! j) = Inl e" by (auto simp: image_iff)
  then show ?thesis by (rule distancia_error)
qed

lemma dist_matrix_fails:
  assumes "p \<in> set pts" and "\<not> finite_point p"
  shows "\<exists>e. dist_matrix norm2 pts = Inl e"
proof -
  let ?row = "\<lambda>i. collect (map (\<lambda>j. distancia_euclidiana norm2 (pts ! i) (pts ! j)) [0..<length pts])"
  obtain i where i: "i < length pts" "pts ! i = p"
    using assms(1) unfolding in_set_conv_nth by blast
  have "Inl (ValueError NaNToInt) \<in> set (map (\<lambda>j. distancia_euclidiana norm2 (pts ! i) (pts ! j)) [0..<length pts])"
    using i distancia_self_not_finite [OF assms(2)] by (auto simp: image_iff intro!: bexI [of _ i])
  then obtain e' where "?row i = Inl e'" using collect_has_Inl by blast
  then have "Inl e' \<in> set (map ?row [0..<length pts])"
    using i by (auto simp: image_iff intro!: bexI [of _ i])
  then show ?thesis unfolding dist_matrix_def Let_def by (rule collect_has_Inl)
qed

lemma built_matrix_points_finite:
  assumes "dist_matrix norm2 pts = Inr m"
  shows "\<forall>p \<in> set pts. finite_point p"
proof (rule ccontr)
  assume "\<not> (\<forall>p \<in> set pts. finite_point p)"
  then obtain p where "p \<in> set pts" "\<not> finite_point p" by blast
  then have "\<exists>e. dist_matrix norm2 pts = Inl e" by (rule dist_matrix_fails)
  then show False using assms by simp
qed

subsection \<open>Auxiliary facts: the doubles in the distance\<close>

text \<open>
  Three runs in which the arithmetic of doubles shows. Finite coordinates can overflow:
  for the points \<open>(2^1020, 0)\<close> and \<open>(0, 0)\<close> the product by 1000 is infinite and no
  matrix is built. The product is rounded before it is truncated: for the double
  written \<open>0.009\<close>, which is \<open>5188146770730811 / 2^59\<close> and lies below \<open>9/1000\<close>, the
  product by 1000 is the double \<open>9.0\<close> and the distance is 9. And the entries of a
  matrix can add up to more than a signed 64-bit integer holds: for the points \<open>(0, 0)\<close>
  and \<open>(5e15, 0)\<close> the tour there and back costs \<open>10^19\<close>.
\<close>

lemma round_double_2_1020: "round_double (2 ^ 1020) = Fin (2 ^ 1020)"
proof (rule round_double_exact [where m = "2 ^ 49" and e = 971])
  have "(2 :: real) ^ 1020 = 2 ^ 49 * 2 ^ 971" by (simp add: power_add [symmetric])
  then show "(2 :: real) ^ 1020 = real_of_int (2 ^ 49) * 2 powr real_of_int 971" by simp
qed simp_all

lemma finite_overflow_example:
  "dist_matrix hypot_nearest [(Fin (2 ^ 1020), Fin 0), (Fin 0, Fin 0)] = Inl OverflowError"
proof -
  define b :: real where "b = 2 ^ 1020"
  have pos: "0 < b" by (simp add: b_def)
  have rb: "round_double b = Fin b" unfolding b_def by (rule round_double_2_1020)
  have "(2 :: real) ^ 1024 = b * 2 ^ 4" by (simp add: b_def power_add [symmetric])
  also have "\<dots> \<le> b * 1000" using pos by (intro mult_left_mono) simp_all
  finally have big: "round_double (b * 1000) = PInf" by (rule round_double_overflow)
  have "distancia_euclidiana hypot_nearest (Fin b, Fin 0) (Fin 0, Fin 0)
          = py_int (fmul (round_double \<bar>b\<bar>) (Fin 1000))"
    using pos rb by (intro distancia_same_parallel) simp_all
  then have e: "distancia_euclidiana hypot_nearest (Fin b, Fin 0) (Fin 0, Fin 0)
          = Inl OverflowError"
    using pos rb big by (simp add: fmul_def)
  have "dist_matrix hypot_nearest [(Fin b, Fin 0), (Fin 0, Fin 0)] = Inl OverflowError"
    by (simp add: dist_matrix_def upt_two distancia_same_point e)
  then show ?thesis unfolding b_def .
qed

lemma double_exponent_near_9: "double_exponent (5188146770730811 / 2 ^ 59 * 1000) = - 49"
proof -
  let ?v = "5188146770730811 / 2 ^ 59 * 1000 :: real"
  have "\<lfloor>log 2 \<bar>?v\<bar>\<rfloor> = 3"
    by (subst floor_log_eq_powr_iff) simp_all
  then show ?thesis by (simp add: double_exponent_def)
qed

lemma round_double_near_9: "round_double (5188146770730811 / 2 ^ 59 * 1000) = Fin 9"
proof -
  let ?v = "5188146770730811 / 2 ^ 59 * 1000 :: real"
  have "(2 :: real) powr (- 49) = inverse (2 powr 49)" by (rule powr_minus)
  also have "(2 :: real) powr 49 = 2 ^ 49" by (rule powr_numeral) simp
  finally have "(2 :: real) powr (- 49) = inverse (2 ^ 49)" .
  then have p: "(2 :: real) powr of_int (- 49) = 1 / 2 ^ 49"
    by (simp only: of_int_minus of_int_numeral inverse_eq_divide)
  have q: "?v / (1 / 2 ^ 49) = 648518346341351375 / 128" by simp
  have r: "round_half_even (648518346341351375 / 128) = 5066549580791808"
    by (simp add: round_half_even_def Let_def)
  have "?v \<noteq> 0" by simp
  then show ?thesis
    by (simp only: round_double_def if_False Let_def double_exponent_near_9 p q r) simp
qed

lemma double_rounding_example:
  "distancia_euclidiana hypot_nearest (Fin (5188146770730811 / 2 ^ 59), Fin 0) (Fin 0, Fin 0)
     = Inr 9"
proof -
  define c :: real where "c = 5188146770730811 / 2 ^ 59"
  have pos: "0 < c" by (simp add: c_def)
  have rc: "round_double c = Fin c"
    unfolding c_def using round_double_dyadic [of 5188146770730811 59] by simp
  have "distancia_euclidiana hypot_nearest (Fin c, Fin 0) (Fin 0, Fin 0)
          = py_int (fmul (round_double \<bar>c\<bar>) (Fin 1000))"
    using pos rc by (intro distancia_same_parallel) simp_all
  moreover have "round_double (c * 1000) = Fin 9"
    unfolding c_def by (rule round_double_near_9)
  ultimately have "distancia_euclidiana hypot_nearest (Fin c, Fin 0) (Fin 0, Fin 0) = Inr 9"
    using pos rc by (simp add: fmul_def)
  then show ?thesis unfolding c_def .
qed

lemma tour_cost_beyond_int64:
  "dist_matrix hypot_nearest [(Fin 0, Fin 0), (Fin 5000000000000000, Fin 0)]
     = Inr [[0, 5000000000000000000], [5000000000000000000, 0]]
   \<and> INT64_MAX < 5000000000000000000 + 5000000000000000000"
proof -
  have r: "round_double 5000000000000000 = Fin 5000000000000000"
    by (simp add: round_double_numeral)
  have n: "round_double (- 5000000000000000) = Fin (- 5000000000000000)"
    by (simp add: round_double_neg_numeral)
  have p: "round_double 5000000000000000000 = Fin 5000000000000000000"
    by (rule round_double_exact [where m = "5 ^ 19" and e = 18]) simp_all
  have f: "\<lfloor>5000000000000000000 :: real\<rfloor> = 5000000000000000000" by simp
  have e01: "distancia_euclidiana hypot_nearest (Fin 0, Fin 0) (Fin 5000000000000000, Fin 0)
               = Inr 5000000000000000000"
    using distancia_on_parallel [where ?x1.0 = 0 and ?x2.0 = 5000000000000000
        and d = "- 5000000000000000" and p = 5000000000000000000 and y = 0] r n p f
    by simp
  have e10: "distancia_euclidiana hypot_nearest (Fin 5000000000000000, Fin 0) (Fin 0, Fin 0)
               = Inr 5000000000000000000"
    using distancia_on_parallel [where ?x1.0 = 5000000000000000 and ?x2.0 = 0
        and d = 5000000000000000 and p = 5000000000000000000 and y = 0] r p f
    by simp
  show ?thesis
    by (simp add: dist_matrix_def upt_two distancia_same_point e01 e10 INT64_MAX_def)
qed

subsection \<open>The claims\<close>

text \<open>
  C1. Whenever \<open>otimizar_rota\<close> returns a sequence for a list of \<open>N\<close> points (which
  it does for at least two points only), the sequence starts and ends at node 0, has
  \<open>N + 1\<close> elements, all of it but the closing element is a permutation of the nodes
  \<open>0..N-1\<close>, and the elements strictly in between are a permutation of \<open>1..N-1\<close>, so
  each of them appears exactly once. The sequence is read off the assignment of the
  routing library; the assignment is assumed to satisfy the constraints of the routing
  model. Under that assumption a call that gets an assignment does return
  (\<open>otimizar_rota_returns\<close>), and without it the sequence can be anything the
  assignment spells (\<open>unconstrained_assignment_short_tour\<close>).
\<close>

theorem tour_is_closed_permutation:
  assumes ok: "otimizar_rota norm2 solver pts = Some (Inr (seq, distancia))"
    and lib: "\<forall>m sol. dist_matrix norm2 pts = Inr m \<and> solution (solver m) = Some sol
                \<longrightarrow> path_constraints (length m) (next_value sol)"
  shows "hd seq = 0 \<and> last seq = 0 \<and> length seq = length pts + 1
         \<and> mset (butlast seq) = mset [0..<length pts]
         \<and> mset (tl (butlast seq)) = mset [1..<length pts]"
proof -
  from ok obtain m sol where s: "2 \<le> length pts" "dist_matrix norm2 pts = Inr m"
      "solution (solver m) = Some sol"
      "extrair (length m) (next_value sol) Start [] = Some seq"
    by (rule otimizar_rota_success)
  have len: "length m = length pts" using s(2) by (rule dist_matrix_length)
  have pc: "path_constraints (length pts) (next_value sol)"
    using lib [rule_format, of m sol] s(2,3) len by simp
  have pos: "0 < length pts" using s(1) by linarith
  from extrair_tour [OF pc pos]
  obtain ys where ys': "extrair (length pts) (next_value sol) Start [] = Some (ys @ [0])"
      and ys: "distinct ys" "set ys = {..<length pts}" "hd ys = 0"
    by (elim exE conjE)
  have seq: "seq = ys @ [0]" using ys' s(4) len by simp
  have "ys \<noteq> []"
  proof
    assume "ys = []"
    then have "{..<length pts} = {}" using ys(2) by simp
    then show False using pos by (simp add: lessThan_empty_iff)
  qed
  then obtain zs where zs: "ys = 0 # zs" using ys(3) by (cases ys) simp_all
  have "set ys = set [0..<length pts]" using ys(2) by (simp add: atLeast0LessThan)
  then have m: "mset ys = mset [0..<length pts]"
    using ys(1) set_eq_iff_mset_eq_distinct [of ys "[0..<length pts]"] by simp
  have "length ys = length pts"
    using distinct_card [OF ys(1)] ys(2) by simp
  moreover have "[0..<length pts] = 0 # [1..<length pts]"
    using pos by (simp add: upt_conv_Cons)
  then have "mset zs = mset [1..<length pts]" using m zs by simp
  ultimately show ?thesis using seq zs m by simp
qed

theorem tour_is_closed_permutation_witness:
  "otimizar_rota hypot_nearest sample_solver sample_pontos = Some (Inr ([0, 2, 1, 0], 4))
   \<and> path_constraints (length sample_pontos) sample_next
   \<and> hd [0, 2, 1, 0 :: nat] = 0 \<and> last [0, 2, 1, 0 :: nat] = 0
   \<and> length [0, 2, 1, 0 :: nat] = length sample_pontos + 1
   \<and> mset (butlast [0, 2, 1, 0]) = mset [0..<length sample_pontos]
   \<and> mset (tl (butlast [0, 2, 1, 0])) = mset [1..<length sample_pontos]"
proof -
  have l3: "length sample_pontos = 3" by (simp add: sample_pontos_def)
  have lib: "\<forall>m sol. dist_matrix hypot_nearest sample_pontos = Inr m
               \<and> solution (sample_solver m) = Some sol
               \<longrightarrow> path_constraints (length m) (next_value sol)"
    using sample_path_constraints
    by (auto simp: sample_matrix sample_solver_def numeral_3_eq_3)
  have pc: "path_constraints (length sample_pontos) sample_next"
    unfolding l3 by (rule sample_path_constraints)
  from sample_run pc tour_is_closed_permutation [OF sample_run lib]
  show ?thesis by (elim conjE) (intro conjI; assumption)
qed

text \<open>
  C2, as the code has it. When the matrix is built, its entry for the ordered pair
  \<open>(i, j)\<close> is \<open>int(math.hypot(xi - xj, yi - yj) * 1000)\<close> in double arithmetic: both
  points are finite, the differences \<open>dx\<close>, \<open>dy\<close>, the value \<open>h\<close> of \<open>math.hypot\<close> and
  the product \<open>p\<close> of \<open>h\<close> by 1000 are finite doubles, each the rounding of the exact
  result, and the entry is \<open>p\<close> truncated toward zero, not rounded. Where
  \<open>math.hypot\<close> returns the double nearest the exact norm, \<open>h\<close> is the rounding of
  \<open>sqrt(dx^2 + dy^2)\<close> and the entry is the floor of \<open>p\<close>.
\<close>

theorem cost_entry_is_truncated_distance:
  assumes built: "dist_matrix norm2 pts = Inr cost"
    and i: "i < length pts" and j: "j < length pts"
  shows "\<exists>xi yi xj yj dx dy h p.
           pts ! i = (Fin xi, Fin yi) \<and> pts ! j = (Fin xj, Fin yj)
         \<and> round_double (xi - xj) = Fin dx \<and> round_double (yi - yj) = Fin dy
         \<and> hypot norm2 (Fin dx) (Fin dy) = Fin h
         \<and> round_double (h * 1000) = Fin p
         \<and> cost ! i ! j = (if 0 \<le> p then \<lfloor>p\<rfloor> else \<lceil>p\<rceil>)
         \<and> (norm2 \<bar>dx\<bar> \<bar>dy\<bar> = round_double (sqrt (dx\<^sup>2 + dy\<^sup>2))
              \<longrightarrow> round_double (sqrt (dx\<^sup>2 + dy\<^sup>2)) = Fin h \<and> cost ! i ! j = \<lfloor>p\<rfloor>)"
proof -
  have "distancia_euclidiana norm2 (pts ! i) (pts ! j) = Inr (cost ! i ! j)"
    using built i j by (rule dist_matrix_entry)
  from distancia_euclidiana_Inr [OF this]
  obtain xi yi xj yj dx dy h p where e: "pts ! i = (Fin xi, Fin yi)" "pts ! j = (Fin xj, Fin yj)"
      "round_double (xi - xj) = Fin dx" "round_double (yi - yj) = Fin dy"
      "hypot norm2 (Fin dx) (Fin dy) = Fin h" "round_double (h * 1000) = Fin p"
      "cost ! i ! j = (if 0 \<le> p then \<lfloor>p\<rfloor> else \<lceil>p\<rceil>)"
    by (elim exE conjE)
  have kern: "norm2 \<bar>dx\<bar> \<bar>dy\<bar> = round_double (sqrt (dx\<^sup>2 + dy\<^sup>2))
              \<longrightarrow> round_double (sqrt (dx\<^sup>2 + dy\<^sup>2)) = Fin h \<and> cost ! i ! j = \<lfloor>p\<rfloor>"
  proof
    assume k: "norm2 \<bar>dx\<bar> \<bar>dy\<bar> = round_double (sqrt (dx\<^sup>2 + dy\<^sup>2))"
    have h: "round_double (sqrt (dx\<^sup>2 + dy\<^sup>2)) = Fin h"
    proof (cases "dx = 0 \<and> dy = 0")
      case True
      then show ?thesis using e(5) by (simp add: hypot_def)
    next
      case False
      then have "norm2 \<bar>dx\<bar> \<bar>dy\<bar> = Fin h"
        using e(5) by (auto simp: hypot_def max_abs_zero)
      then show ?thesis using k by simp
    qed
    have "0 \<le> sqrt (dx\<^sup>2 + dy\<^sup>2)" by simp
    then have "0 \<le> h" using h by (rule round_double_nonneg)
    then have "0 \<le> h * 1000" by simp
    then have "0 \<le> p" using e(6) by (rule round_double_nonneg)
    then show "round_double (sqrt (dx\<^sup>2 + dy\<^sup>2)) = Fin h \<and> cost ! i ! j = \<lfloor>p\<rfloor>"
      using h e(7) by simp
  qed
  show ?thesis
    by (rule exI [of _ xi], rule exI [of _ yi], rule exI [of _ xj], rule exI [of _ yj],
        rule exI [of _ dx], rule exI [of _ dy], rule exI [of _ h], rule exI [of _ p])
      (intro conjI; fact)
qed

theorem cost_entry_is_truncated_distance_witness:
  "dist_matrix hypot_nearest [(Fin 0, Fin 0), (Fin (1 / 128), Fin 0)] = Inr [[0, 7], [7, 0]]
   \<and> (0 :: nat) < length [(Fin 0, Fin 0), (Fin (1 / 128), Fin 0)]
   \<and> (1 :: nat) < length [(Fin 0, Fin 0), (Fin (1 / 128), Fin 0)]
   \<and> (\<exists>xi yi xj yj dx dy h p.
         [(Fin 0, Fin 0), (Fin (1 / 128), Fin 0)] ! 0 = (Fin xi, Fin yi)
       \<and> [(Fin 0, Fin 0), (Fin (1 / 128), Fin 0)] ! 1 = (Fin xj, Fin yj)
       \<and> round_double (xi - xj) = Fin dx \<and> round_double (yi - yj) = Fin dy
       \<and> hypot hypot_nearest (Fin dx) (Fin dy) = Fin h
       \<and> round_double (h * 1000) = Fin p
       \<and> [[0, 7], [7, 0]] ! 0 ! 1 = (if 0 \<le> p then \<lfloor>p\<rfloor> else \<lceil>p\<rceil>)
       \<and> (hypot_nearest \<bar>dx\<bar> \<bar>dy\<bar> = round_double (sqrt (dx\<^sup>2 + dy\<^sup>2))
            \<longrightarrow> round_double (sqrt (dx\<^sup>2 + dy\<^sup>2)) = Fin h \<and> [[0, 7], [7, 0]] ! 0 ! 1 = \<lfloor>p\<rfloor>))"
proof -
  have i: "(0 :: nat) < length [(Fin 0, Fin 0), (Fin (1 / 128), Fin 0)]"
    and j: "(1 :: nat) < length [(Fin 0, Fin 0), (Fin (1 / 128), Fin 0)]"
    by simp_all
  from short_hop_matrix i j cost_entry_is_truncated_distance [OF short_hop_matrix i j]
  show ?thesis by - (intro conjI; assumption)
qed

text \<open>
  C2 as stated fails: two points \<open>1/128\<close> of a degree apart are at the scaled distance
  \<open>7.8125\<close>; the matrix holds 7 where rounding gives 8.
\<close>

theorem cost_entry_not_rounded:
  "dist_matrix hypot_nearest [(Fin 0, Fin 0), (Fin (1 / 128), Fin 0)] = Inr [[0, 7], [7, 0]]
   \<and> round (sqrt ((0 - 1 / 128)\<^sup>2 + (0 - 0)\<^sup>2) * 1000 :: real) = 8"
proof -
  have "sqrt ((0 - 1 / 128)\<^sup>2 + (0 - 0)\<^sup>2) = (1 / 128 :: real)"
    by (rule real_sqrt_unique) (simp_all add: power2_eq_square)
  then have "round (sqrt ((0 - 1 / 128)\<^sup>2 + (0 - 0)\<^sup>2) * 1000 :: real) = 8"
    by (simp add: round_def floor_eq_iff)
  then show ?thesis using short_hop_matrix by simp
qed

text \<open>
  C3, as the code has it. The distance returned is the objective of the solver divided by
  1000, as a double (kilometres, says the docstring): a rescaled quantity. Where the
  objective of the library is the sum of the arc costs, which it can be only while the
  entries of the matrix and their sum along the route fit in 64 bits
  (\<open>tour_cost_beyond_int64\<close> is a run in which they do not), the objective is the sum
  of the matrix entries \<open>cost[seq[k]][seq[k+1]]\<close> along the returned sequence. The
  assignment is assumed to satisfy the constraints of the routing model.
\<close>

theorem distance_is_tour_cost_in_km:
  assumes ok: "otimizar_rota norm2 solver pts = Some (Inr (seq, distancia))"
    and lib: "\<forall>m sol. dist_matrix norm2 pts = Inr m \<and> solution (solver m) = Some sol
                \<longrightarrow> path_constraints (length m) (next_value sol)"
  shows "\<exists>cost sol. dist_matrix norm2 pts = Inr cost \<and> solution (solver cost) = Some sol
           \<and> round_double (real_of_int (objective_value sol) / 1000) = Fin distancia
           \<and> (arc_cost_objective cost sol \<and> within_int64 cost
                \<and> (\<Sum>k<length pts. cost ! (seq ! k) ! (seq ! Suc k)) \<le> INT64_MAX
               \<longrightarrow> objective_value sol = (\<Sum>k<length pts. cost ! (seq ! k) ! (seq ! Suc k)))"
proof -
  from ok obtain m sol where s: "2 \<le> length pts" "dist_matrix norm2 pts = Inr m"
      "solution (solver m) = Some sol"
      "extrair (length m) (next_value sol) Start [] = Some seq"
      "py_truediv (objective_value sol) 1000 = Inr distancia"
    by (rule otimizar_rota_success)
  have len: "length m = length pts" using s(2) by (rule dist_matrix_length)
  have pc: "path_constraints (length pts) (next_value sol)"
    using lib [rule_format, of m sol] s(2,3) len by simp
  have pos: "0 < length pts" using s(1) by linarith
  from extrair_tour [OF pc pos]
  obtain ys where ys': "extrair (length pts) (next_value sol) Start [] = Some (ys @ [0])"
      and ys: "distinct ys" "set ys = {..<length pts}" "linked (next_value sol) (ys @ [length pts])"
    by (elim exE conjE)
  have seq: "seq = ys @ [0]" using ys' s(4) len by simp
  have sum: "arc_cost_sum m (next_value sol) = (\<Sum>k<length pts. m ! (seq ! k) ! (seq ! Suc k))"
    using objective_along_tour [OF ys, of m] len seq by (simp add: arc_cost_sum_def)
  have div: "round_double (real_of_int (objective_value sol) / 1000) = Fin distancia"
    using s(5) by (simp add: py_truediv_def split: pyfloat.splits)
  have obj: "arc_cost_objective m sol \<and> within_int64 m
               \<and> (\<Sum>k<length pts. m ! (seq ! k) ! (seq ! Suc k)) \<le> INT64_MAX
             \<longrightarrow> objective_value sol = (\<Sum>k<length pts. m ! (seq ! k) ! (seq ! Suc k))"
    unfolding arc_cost_objective_def sum by simp
  show ?thesis
    by (rule exI [of _ m], rule exI [of _ sol]) (intro conjI; fact)
qed

theorem distance_is_tour_cost_in_km_witness:
  "otimizar_rota hypot_nearest sample_solver sample_pontos = Some (Inr ([0, 2, 1, 0], 4))
   \<and> path_constraints (length sample_pontos) sample_next
   \<and> arc_cost_objective [[0, 2000, 1000], [2000, 0, 1000], [1000, 1000, 0]]
        \<lparr>next_value = sample_next, objective_value = 4000\<rparr>
   \<and> within_int64 [[0, 2000, 1000], [2000, 0, 1000], [1000, 1000, 0]]
   \<and> round_double (real_of_int 4000 / 1000) = Fin 4
   \<and> (4000 :: int) = (\<Sum>k<length sample_pontos.
         [[0, 2000, 1000], [2000, 0, 1000], [1000, 1000, 0]] ! ([0, 2, 1, 0] ! k) ! ([0, 2, 1, 0] ! Suc k))"
proof -
  let ?M = "[[0, 2000, 1000], [2000, 0, 1000], [1000, 1000, 0 :: int]]"
  let ?A = "\<lparr>next_value = sample_next, objective_value = 4000\<rparr>"
  have l3: "length sample_pontos = 3" by (simp add: sample_pontos_def)
  have lib: "\<forall>m sol. dist_matrix hypot_nearest sample_pontos = Inr m
               \<and> solution (sample_solver m) = Some sol
               \<longrightarrow> path_constraints (length m) (next_value sol)"
    using sample_path_constraints
    by (auto simp: sample_matrix sample_solver_def numeral_3_eq_3)
  have pc: "path_constraints (length sample_pontos) sample_next"
    unfolding l3 by (rule sample_path_constraints)
  from distance_is_tour_cost_in_km [OF sample_run lib]
  obtain cost sol where c: "dist_matrix hypot_nearest sample_pontos = Inr cost"
      "solution (sample_solver cost) = Some sol"
      "round_double (real_of_int (objective_value sol) / 1000) = Fin 4"
      "arc_cost_objective cost sol \<and> within_int64 cost
         \<and> (\<Sum>k<length sample_pontos. cost ! ([0, 2, 1, 0] ! k) ! ([0, 2, 1, 0] ! Suc k)) \<le> INT64_MAX
       \<longrightarrow> objective_value sol
            = (\<Sum>k<length sample_pontos. cost ! ([0, 2, 1, 0] ! k) ! ([0, 2, 1, 0] ! Suc k))"
    by (elim exE conjE)
  have cost: "cost = ?M" using c(1) sample_matrix by simp
  have sol: "sol = ?A" using c(2) by (simp add: sample_solver_def)
  have small: "(\<Sum>k<length sample_pontos. ?M ! ([0, 2, 1, 0] ! k) ! ([0, 2, 1, 0] ! Suc k)) \<le> INT64_MAX"
    by (simp add: l3 lessThan_Suc eval_nat_numeral INT64_MAX_def)
  have "(4000 :: int) = (\<Sum>k<length sample_pontos. ?M ! ([0, 2, 1, 0] ! k) ! ([0, 2, 1, 0] ! Suc k))"
    using c(4) sample_objective sample_within_int64 small unfolding cost sol by simp
  moreover have "round_double (real_of_int 4000 / 1000) = Fin 4"
    using c(3) unfolding sol by simp
  ultimately show ?thesis
    using sample_run pc sample_objective sample_within_int64 by - (intro conjI; assumption)
qed

text \<open>
  C3 as stated fails: on the sample run the matrix entries along the returned sequence
  add up to 4000, and the distance returned is 4.
\<close>

theorem distance_is_rescaled:
  "otimizar_rota hypot_nearest sample_solver sample_pontos = Some (Inr ([0, 2, 1, 0], 4))
   \<and> dist_matrix hypot_nearest sample_pontos
       = Inr [[0, 2000, 1000], [2000, 0, 1000], [1000, 1000, 0]]
   \<and> (\<Sum>k<3. [[0, 2000, 1000], [2000, 0, 1000], [1000, 1000, 0]]
                 ! ([0, 2, 1, 0] ! k) ! ([0, 2, 1, 0] ! Suc k)) = (4000 :: int)
   \<and> (4 :: real) \<noteq> real_of_int 4000"
  by (simp add: sample_run sample_matrix lessThan_Suc eval_nat_numeral)

text \<open>
  C4. With fewer than two points (none or one) \<open>otimizar_rota\<close> raises the ValueError
  of its size guard, whatever the solver would do, and returns no tour.
\<close>

theorem otimizar_rota_rejects_small:
  "length pontos_coordenadas < 2 \<Longrightarrow>
     otimizar_rota norm2 solver pontos_coordenadas = Some (Inl (ValueError TooFewPoints))"
  by (simp add: otimizar_rota_def)

theorem otimizar_rota_rejects_small_witness:
  "length ([] :: point list) < 2 \<and> length [(Fin 0, Fin 0)] < 2
   \<and> otimizar_rota hypot_nearest (\<lambda>m. \<lparr>limit_reached = False, solution = None\<rparr>) []
       = Some (Inl (ValueError TooFewPoints))
   \<and> otimizar_rota hypot_nearest (\<lambda>m. \<lparr>limit_reached = False, solution = None\<rparr>) [(Fin 0, Fin 0)]
       = Some (Inl (ValueError TooFewPoints))"
  using otimizar_rota_rejects_small [of "[]"] otimizar_rota_rejects_small [of "[(Fin 0, Fin 0)]"]
  by simp

text \<open>
  C5, as the code has it. With exactly one point \<open>otimizar_rota\<close> raises the ValueError
  of its size guard: it returns no tour, no cost and no flag.
\<close>

theorem single_point_rejected:
  "length pontos_coordenadas = 1 \<Longrightarrow>
     otimizar_rota norm2 solver pontos_coordenadas = Some (Inl (ValueError TooFewPoints))"
  by (simp add: otimizar_rota_def)

theorem single_point_rejected_witness:
  "length [(Fin 0, Fin 0)] = 1
   \<and> otimizar_rota hypot_nearest sample_solver [(Fin 0, Fin 0)]
       = Some (Inl (ValueError TooFewPoints))"
  using single_point_rejected [of "[(Fin 0, Fin 0)]" hypot_nearest sample_solver] by simp

text \<open>
  C5 as stated fails: even with a solver that would answer the one-node model with the
  route \<open>0 \<rightarrow> end\<close> at cost 0, the call does not return the trivial tour \<open>[0, 0]\<close>.
\<close>

theorem single_point_no_trivial_tour:
  "otimizar_rota hypot_nearest
     (\<lambda>m. \<lparr>limit_reached = False,
            solution = Some \<lparr>next_value = Suc, objective_value = 0\<rparr>\<rparr>)
     [(Fin 0, Fin 0)] \<noteq> Some (Inr ([0, 0], 0))
   \<and> otimizar_rota hypot_nearest
     (\<lambda>m. \<lparr>limit_reached = False,
            solution = Some \<lparr>next_value = Suc, objective_value = 0\<rparr>\<rparr>)
     [(Fin 0, Fin 0)] = Some (Inl (ValueError TooFewPoints))"
  by (simp add: otimizar_rota_def)

text \<open>
  C6, as the code has it. The function does not check its coordinates. For at least two
  points of which one has a non-finite coordinate, no tour is produced: building the
  matrix raises what \<open>int()\<close> raises on a non-finite distance, ValueError for NaN or
  OverflowError for an infinity, and that exception leaves the function.
\<close>

theorem non_finite_raises_arithmetic_error:
  assumes "2 \<le> length pts" and "\<exists>p \<in> set pts. \<not> finite_point p"
  shows "otimizar_rota norm2 solver pts = Some (Inl (ValueError NaNToInt))
         \<or> otimizar_rota norm2 solver pts = Some (Inl OverflowError)"
proof -
  obtain e where e: "dist_matrix norm2 pts = Inl e" using assms(2) dist_matrix_fails by blast
  then have "otimizar_rota norm2 solver pts = Some (Inl e)"
    using assms(1) by (simp add: otimizar_rota_def)
  then show ?thesis using dist_matrix_error [OF e] by auto
qed

theorem non_finite_raises_arithmetic_error_witness:
  "2 \<le> length [(Fin 0, Fin 0), (PInf, Fin 0)] \<and> \<not> finite_point (PInf, Fin 0)
   \<and> (otimizar_rota hypot_nearest sample_solver [(Fin 0, Fin 0), (PInf, Fin 0)]
          = Some (Inl (ValueError NaNToInt))
        \<or> otimizar_rota hypot_nearest sample_solver [(Fin 0, Fin 0), (PInf, Fin 0)]
          = Some (Inl OverflowError))"
proof -
  have nf: "\<not> finite_point (PInf, Fin 0)" by (simp add: finite_point_def isfinite_def)
  then have ex: "\<exists>p \<in> set [(Fin 0, Fin 0), (PInf, Fin 0)]. \<not> finite_point p" by simp
  have len: "2 \<le> length [(Fin 0, Fin 0), (PInf, Fin 0)]" by simp
  from len nf non_finite_raises_arithmetic_error [OF len ex, of hypot_nearest sample_solver]
  show ?thesis by - (intro conjI; assumption)
qed

text \<open>
  C6 as stated fails: an infinite coordinate in the second point ends the call with
  OverflowError, a NaN there with the ValueError of \<open>int(nan)\<close>; neither is the
  validation error of the size guard.
\<close>

theorem non_finite_not_invalid_input:
  "otimizar_rota hypot_nearest sample_solver [(Fin 0, Fin 0), (PInf, Fin 0)]
     = Some (Inl OverflowError)
   \<and> otimizar_rota hypot_nearest sample_solver [(Fin 0, Fin 0), (NaN, Fin 0)]
     = Some (Inl (ValueError NaNToInt))"
  by (simp add: otimizar_rota_def dist_matrix_def upt_two distancia_euclidiana_def hypot_def
      isinf_def fmul_def fsign_def)

text \<open>
  C7. Whenever the cost matrix is built, its diagonal is zero and it is symmetric. The
  matrix is built for points with finite coordinates only (\<open>built_matrix_points_finite\<close>),
  and not for all of them: differences and products of finite doubles can be infinite
  (\<open>finite_overflow_example\<close>), and then the call ends with the exception of \<open>int()\<close>.
\<close>

theorem cost_matrix_zero_diagonal_symmetric:
  assumes built: "dist_matrix norm2 pts = Inr cost"
  shows "(\<forall>i<length pts. cost ! i ! i = 0)
         \<and> (\<forall>i<length pts. \<forall>j<length pts. cost ! i ! j = cost ! j ! i)"
proof (intro conjI allI impI)
  fix i assume i: "i < length pts"
  have "distancia_euclidiana norm2 (pts ! i) (pts ! i) = Inr (cost ! i ! i)"
    using built i i by (rule dist_matrix_entry)
  then show "cost ! i ! i = 0" by (rule distancia_euclidiana_self)
next
  fix i j assume i: "i < length pts" and j: "j < length pts"
  have "distancia_euclidiana norm2 (pts ! i) (pts ! j) = Inr (cost ! i ! j)"
    using built i j by (rule dist_matrix_entry)
  moreover have "distancia_euclidiana norm2 (pts ! j) (pts ! i) = Inr (cost ! j ! i)"
    using built j i by (rule dist_matrix_entry)
  ultimately show "cost ! i ! j = cost ! j ! i"
    using distancia_euclidiana_sym [of norm2 "pts ! i" "pts ! j"] by simp
qed

theorem cost_matrix_zero_diagonal_symmetric_witness:
  "dist_matrix hypot_nearest sample_pontos = Inr [[0, 2000, 1000], [2000, 0, 1000], [1000, 1000, 0]]
   \<and> finite_point (Fin 0, Fin 0) \<and> finite_point (Fin 2, Fin 0) \<and> finite_point (Fin 1, Fin 0)
   \<and> [[0, 2000, 1000], [2000, 0, 1000], [1000, 1000, 0 :: int]] ! 0 ! 0 = 0
   \<and> [[0, 2000, 1000], [2000, 0, 1000], [1000, 1000, 0 :: int]] ! 1 ! 1 = 0
   \<and> [[0, 2000, 1000], [2000, 0, 1000], [1000, 1000, 0 :: int]] ! 2 ! 2 = 0
   \<and> [[0, 2000, 1000], [2000, 0, 1000], [1000, 1000, 0 :: int]] ! 0 ! 1
       = [[0, 2000, 1000], [2000, 0, 1000], [1000, 1000, 0]] ! 1 ! 0
   \<and> [[0, 2000, 1000], [2000, 0, 1000], [1000, 1000, 0 :: int]] ! 0 ! 2
       = [[0, 2000, 1000], [2000, 0, 1000], [1000, 1000, 0]] ! 2 ! 0
   \<and> [[0, 2000, 1000], [2000, 0, 1000], [1000, 1000, 0 :: int]] ! 1 ! 2
       = [[0, 2000, 1000], [2000, 0, 1000], [1000, 1000, 0]] ! 2 ! 1"
proof -
  have l3: "length sample_pontos = 3" by (simp add: sample_pontos_def)
  from cost_matrix_zero_diagonal_symmetric [OF sample_matrix] l3 sample_matrix
  show ?thesis by (simp add: finite_point_def isfinite_def)
qed

text \<open>
  C8, as the code has it. Given at least two points and a matrix, the call depends on
  the assignment alone. Without an assignment, which is what the solver hands back when
  the time limit expires before a first solution, RuntimeError is raised. With an
  assignment that satisfies the constraints of the routing model, and whose objective
  divided by 1000 is a double, a normal result (sequence, distance) is returned, whether
  or not the search stopped at its time limit.
  And the result is the same for both values of that flag: it is a pair and carries no
  convergence flag.
\<close>

theorem time_limit_not_in_result:
  assumes big: "2 \<le> length pts" and m: "dist_matrix norm2 pts = Inr m"
  shows "(solution (solver m) = None
            \<longrightarrow> otimizar_rota norm2 solver pts = Some (Inl RuntimeError))
       \<and> (\<forall>sol d. solution (solver m) = Some sol
                  \<and> path_constraints (length m) (next_value sol)
                  \<and> py_truediv (objective_value sol) 1000 = Inr d
            \<longrightarrow> (\<exists>seq. otimizar_rota norm2 solver pts = Some (Inr (seq, d))
                       \<and> otimizar_rota norm2 (\<lambda>m. (solver m)\<lparr>limit_reached := True\<rparr>) pts
                           = Some (Inr (seq, d))
                       \<and> otimizar_rota norm2 (\<lambda>m. (solver m)\<lparr>limit_reached := False\<rparr>) pts
                           = Some (Inr (seq, d))))
       \<and> otimizar_rota norm2 (\<lambda>m. (solver m)\<lparr>limit_reached := b\<rparr>) pts
           = otimizar_rota norm2 solver pts"
proof -
  have nb: "\<not> length pts < 2" using big by linarith
  have flag: "otimizar_rota norm2 (\<lambda>m. (solver m)\<lparr>limit_reached := c\<rparr>) pts
                = otimizar_rota norm2 solver pts" for c
    by (simp add: otimizar_rota_def split: sum.splits)
  have none: "solution (solver m) = None
                \<longrightarrow> otimizar_rota norm2 solver pts = Some (Inl RuntimeError)"
    using nb m by (simp add: otimizar_rota_def)
  have some: "\<exists>seq. otimizar_rota norm2 solver pts = Some (Inr (seq, d))
                \<and> otimizar_rota norm2 (\<lambda>m. (solver m)\<lparr>limit_reached := True\<rparr>) pts
                    = Some (Inr (seq, d))
                \<and> otimizar_rota norm2 (\<lambda>m. (solver m)\<lparr>limit_reached := False\<rparr>) pts
                    = Some (Inr (seq, d))"
    if "solution (solver m) = Some sol \<and> path_constraints (length m) (next_value sol)
          \<and> py_truediv (objective_value sol) 1000 = Inr d" for sol d
  proof -
    from that have t: "solution (solver m) = Some sol"
        "path_constraints (length m) (next_value sol)"
        "py_truediv (objective_value sol) 1000 = Inr d"
      by simp_all
    have "\<exists>seq. otimizar_rota norm2 solver pts = Some (Inr (seq, d))"
      using big m t by (rule otimizar_rota_returns)
    then obtain seq where "otimizar_rota norm2 solver pts = Some (Inr (seq, d))" ..
    then show ?thesis by (intro exI [of _ seq]) (simp only: flag simp_thms)
  qed
  show ?thesis using none some flag [of b] by blast
qed

theorem time_limit_not_in_result_witness:
  "2 \<le> length sample_pontos
   \<and> dist_matrix hypot_nearest sample_pontos
       = Inr [[0, 2000, 1000], [2000, 0, 1000], [1000, 1000, 0]]
   \<and> solution (timeout_solver [[0, 2000, 1000], [2000, 0, 1000], [1000, 1000, 0]]) = None
   \<and> otimizar_rota hypot_nearest timeout_solver sample_pontos = Some (Inl RuntimeError)
   \<and> solution (sample_solver [[0, 2000, 1000], [2000, 0, 1000], [1000, 1000, 0]])
       = Some \<lparr>next_value = sample_next, objective_value = 4000\<rparr>
   \<and> path_constraints 3 sample_next
   \<and> py_truediv 4000 1000 = Inr 4
   \<and> otimizar_rota hypot_nearest (\<lambda>m. (sample_solver m)\<lparr>limit_reached := True\<rparr>) sample_pontos
       = Some (Inr ([0, 2, 1, 0], 4))
   \<and> otimizar_rota hypot_nearest (\<lambda>m. (sample_solver m)\<lparr>limit_reached := False\<rparr>) sample_pontos
       = Some (Inr ([0, 2, 1, 0], 4))"
proof -
  let ?M = "[[0, 2000, 1000], [2000, 0, 1000], [1000, 1000, 0 :: int]]"
  have len: "2 \<le> length sample_pontos" by (simp add: sample_pontos_def)
  have none: "solution (timeout_solver ?M) = None" by (simp add: timeout_solver_def)
  have sol: "solution (sample_solver ?M) = Some \<lparr>next_value = sample_next, objective_value = 4000\<rparr>"
    by (simp add: sample_solver_def)
  have a: "otimizar_rota hypot_nearest timeout_solver sample_pontos = Some (Inl RuntimeError)"
    using time_limit_not_in_result [OF len sample_matrix, where solver = timeout_solver and b = True,
        THEN conjunct1] none by simp
  have "\<exists>seq. otimizar_rota hypot_nearest sample_solver sample_pontos = Some (Inr (seq, 4))
          \<and> otimizar_rota hypot_nearest (\<lambda>m. (sample_solver m)\<lparr>limit_reached := True\<rparr>) sample_pontos
              = Some (Inr (seq, 4))
          \<and> otimizar_rota hypot_nearest (\<lambda>m. (sample_solver m)\<lparr>limit_reached := False\<rparr>) sample_pontos
              = Some (Inr (seq, 4))"
    using time_limit_not_in_result [OF len sample_matrix, where solver = sample_solver and b = True,
        THEN conjunct2, THEN conjunct1, rule_format,
        of "\<lparr>next_value = sample_next, objective_value = 4000\<rparr>" 4]
      sol sample_path_constraints truediv_4000
    by (simp add: numeral_3_eq_3)
  then have b: "otimizar_rota hypot_nearest (\<lambda>m. (sample_solver m)\<lparr>limit_reached := True\<rparr>) sample_pontos
              = Some (Inr ([0, 2, 1, 0], 4))"
    and c: "otimizar_rota hypot_nearest (\<lambda>m. (sample_solver m)\<lparr>limit_reached := False\<rparr>) sample_pontos
              = Some (Inr ([0, 2, 1, 0], 4))"
    using sample_run by auto
  from len sample_matrix none a sol sample_path_constraints truediv_4000 b c
  show ?thesis by - (intro conjI; assumption)
qed

text \<open>
  C8 as stated fails: a search that reaches its time limit without a solution is reported
  as RuntimeError. The outcome of the search is the solver's and is given here, not
  derived from the 30 seconds; on whichever input it occurs, the function does the same
  (first part of the theorem above).
\<close>

theorem time_limit_raises_runtime_error:
  "limit_reached (timeout_solver [[0, 2000, 1000], [2000, 0, 1000], [1000, 1000, 0]])
   \<and> otimizar_rota hypot_nearest timeout_solver sample_pontos = Some (Inl RuntimeError)"
proof -
  have "\<not> length sample_pontos < 2" by (simp add: sample_pontos_def)
  then show ?thesis
    by (simp add: otimizar_rota_def sample_matrix timeout_solver_def)
qed

text \<open>
  C9, as the code has it. \<open>obter_rota_real\<close> raises nothing: when the route service
  raises, whatever the exception, the function prints a message and returns \<open>None\<close>;
  when the service answers, the answer is returned unchanged and nothing is printed.
\<close>

theorem route_failure_becomes_none:
  "(\<forall>e. ors api_key pontos profile = Inl e \<longrightarrow>
        snd (obter_rota_real ors api_key pontos profile) = None
        \<and> fst (obter_rota_real ors api_key pontos profile) \<noteq> [])
   \<and> (\<forall>caminhos. ors api_key pontos profile = Inr caminhos \<longrightarrow>
        obter_rota_real ors api_key pontos profile = ([], Some caminhos))"
proof (intro conjI allI impI)
  fix e assume "ors api_key pontos profile = Inl e"
  then show "snd (obter_rota_real ors api_key pontos profile) = None"
    by (cases e) (simp_all add: obter_rota_real_def)
next
  fix e assume "ors api_key pontos profile = Inl e"
  then show "fst (obter_rota_real ors api_key pontos profile) \<noteq> []"
    by (cases e) (simp_all add: obter_rota_real_def)
next
  fix caminhos assume "ors api_key pontos profile = Inr caminhos"
  then show "obter_rota_real ors api_key pontos profile = ([], Some caminhos)"
    by (simp add: obter_rota_real_def)
qed

theorem route_failure_becomes_none_witness:
  "obter_rota_real (\<lambda>k p r. Inl (OtherException ''timed out'')) ''key'' sample_pontos ''driving-car''
     = ([''Erro ao obter rota real: timed out''], None)
   \<and> obter_rota_real (\<lambda>k p r. Inr \<lparr>features = Some []\<rparr>) ''key'' sample_pontos ''driving-car''
     = ([], Some \<lparr>features = Some []\<rparr>)"
proof -
  have a: "obter_rota_real (\<lambda>k p r. Inr \<lparr>features = Some []\<rparr>) ''key'' sample_pontos ''driving-car''
     = ([], Some \<lparr>features = Some []\<rparr>)"
    using route_failure_becomes_none [of "\<lambda>k p r. Inr \<lparr>features = Some []\<rparr>" "''key''" sample_pontos "''driving-car''"]
    by simp
  have "snd (obter_rota_real (\<lambda>k p r. Inl (OtherException ''timed out'')) ''key'' sample_pontos ''driving-car'') = None"
    using route_failure_becomes_none [of "\<lambda>k p r. Inl (OtherException ''timed out'')" "''key''" sample_pontos "''driving-car''"]
    by simp
  moreover have "fst (obter_rota_real (\<lambda>k p r. Inl (OtherException ''timed out'')) ''key'' sample_pontos ''driving-car'')
     = [''Erro ao obter rota real: timed out'']"
    by (simp add: obter_rota_real_def)
  ultimately show ?thesis using a by (simp add: prod_eq_iff)
qed

text \<open>
  C9 as stated fails: an \<open>ApiError\<close> of the route service is caught inside the function
  and the caller receives a bare \<open>None\<close>.
\<close>

theorem route_failure_swallowed:
  "obter_rota_real (\<lambda>k p r. Inl (ApiError ''403 forbidden'')) ''key'' sample_pontos ''driving-car''
     = ([''Erro na API OpenRouteService: 403 forbidden''], None)"
  by (simp add: obter_rota_real_def)

text \<open>
  C10. \<open>calcular_estatisticas_rota\<close> enters its real-route branch on the presence of the
  key \<open>features\<close> alone: with \<open>features\<close> an empty list the call raises IndexError,
  whatever the points and the sequence; with \<open>caminhos\<close> \<open>None\<close>, or a dictionary
  without the key, it computes the Euclidean statistics.
\<close>

theorem empty_features_raises_index_error:
  "calcular_estatisticas_rota norm2 pontos_coordenadas sequencia_otimizada
     (Some \<lparr>features = Some []\<rparr>) = Inl IndexError
   \<and> calcular_estatisticas_rota norm2 pontos_coordenadas sequencia_otimizada None
     = estatisticas_euclidianas norm2 pontos_coordenadas sequencia_otimizada
   \<and> calcular_estatisticas_rota norm2 pontos_coordenadas sequencia_otimizada
     (Some \<lparr>features = None\<rparr>)
     = estatisticas_euclidianas norm2 pontos_coordenadas sequencia_otimizada"
  by (simp add: calcular_estatisticas_rota_def)

theorem empty_features_raises_index_error_witness:
  "calcular_estatisticas_rota hypot_nearest sample_pontos [0, 2, 1, 0]
     (Some \<lparr>features = Some []\<rparr>) = Inl IndexError
   \<and> calcular_estatisticas_rota hypot_nearest sample_pontos [0, 2, 1, 0] None
     = Inr \<lparr>num_pontos = 3, num_paradas = 4, distancia_km = Fin 4,
            tempo_horas = round_double (4 / 60),
            tempo_minutos = fmul (round_double (4 / 60)) (Fin 60)\<rparr>"
proof -
  have "soma_euclidiana hypot_nearest sample_pontos [0, 2, 1, 0] 0 = Inr 4000"
    by (simp add: sample_pontos_def sample_distances)
  then have "estatisticas_euclidianas hypot_nearest sample_pontos [0, 2, 1, 0]
     = Inr \<lparr>num_pontos = 3, num_paradas = 4, distancia_km = Fin 4,
            tempo_horas = round_double (4 / 60),
            tempo_minutos = fmul (round_double (4 / 60)) (Fin 60)\<rparr>"
    by (simp add: estatisticas_euclidianas_def truediv_4000 fdiv_literal_def sample_pontos_def)
  then show ?thesis
    using empty_features_raises_index_error [of hypot_nearest sample_pontos "[0, 2, 1, 0]"]
    by simp
qed

end
